theory Spec2Isabelle
  imports Complex_Main
begin

section \<open>PhishSense: a rule-based phishing detector\<close>

text \<open>
  A shallow embedding of \<^verbatim>\<open>phishing_detector.py\<close>: text preprocessing, URL extraction,
  feature extraction, the risk calculator and the detector.

  Conventions of the embedding.
  \<^item> A Python \<^verbatim>\<open>str\<close> is a \<^typ>\<open>string\<close>. The character classes (\<^verbatim>\<open>isspace\<close>, \<^verbatim>\<open>isalpha\<close>,
    \<^verbatim>\<open>isupper\<close>, \<^verbatim>\<open>isdigit\<close>, \<^verbatim>\<open>lower\<close>, the regular expression classes \<^verbatim>\<open>\s\<close>, \<^verbatim>\<open>\S\<close>, \<^verbatim>\<open>\d\<close>) are
    those of ASCII: the embedding is exact on ASCII text, and a character above 127 is an
    opaque character that has no case and is neither a space, a digit, a letter nor punctuation.
  \<^item> A Python \<^verbatim>\<open>float\<close> is a \<^typ>\<open>real\<close>: sums, products, \<^verbatim>\<open>**\<close> and \<^verbatim>\<open>round\<close> are the exact
    operations, without the rounding error of binary floating point.
  \<^item> A Python \<^verbatim>\<open>int\<close> is an \<^typ>\<open>int\<close>.
  \<^item> An exception is a value \<open>Inl e\<close> of \<open>py_error + 'a\<close>.
  \<^item> The clock read by \<^verbatim>\<open>_get_timestamp\<close> is an argument \<open>now\<close>.
\<close>

subsection \<open>Characters\<close>

text \<open>
  The ASCII character classes, as the constants of the module \<^verbatim>\<open>string\<close> list them.
  \<open>whitespace\<close> holds the ten ASCII characters for which \<^verbatim>\<open>str.isspace\<close> is true and
  which \<^verbatim>\<open>\s\<close> matches: TAB, LF, VT, FF, CR, FS, GS, RS, US and the space.
\<close>

definition whitespace :: string where
  "whitespace = [CHR 0x09, CHR 0x0A, CHR 0x0B, CHR 0x0C, CHR 0x0D,
                 CHR 0x1C, CHR 0x1D, CHR 0x1E, CHR 0x1F, CHR 0x20]"

definition ascii_uppercase :: string where
  "ascii_uppercase = ''ABCDEFGHIJKLMNOPQRSTUVWXYZ''"

definition ascii_lowercase :: string where
  "ascii_lowercase = ''abcdefghijklmnopqrstuvwxyz''"

definition digits :: string where
  "digits = ''0123456789''"

definition punctuation :: string where
  "punctuation = ''!'' @ [CHR 0x22] @ ''#$%&'' @ [CHR 0x27] @ ''()*+,-./:;<=>?@['' @ [CHR 0x5C] @
     '']^_'' @ [CHR 0x60] @ ''{|}~''"

definition is_space :: "char \<Rightarrow> bool" where
  "is_space c = (c \<in> set whitespace)"

definition is_upper :: "char \<Rightarrow> bool" where
  "is_upper c = (c \<in> set ascii_uppercase)"

definition is_lower :: "char \<Rightarrow> bool" where
  "is_lower c = (c \<in> set ascii_lowercase)"

definition is_alpha :: "char \<Rightarrow> bool" where
  "is_alpha c = (is_upper c \<or> is_lower c)"

definition is_digit :: "char \<Rightarrow> bool" where
  "is_digit c = (c \<in> set digits)"

definition is_punctuation :: "char \<Rightarrow> bool" where
  "is_punctuation c = (c \<in> set punctuation)"

definition lower_char :: "char \<Rightarrow> char" where
  "lower_char c = (case map_of (zip ascii_uppercase ascii_lowercase) c of Some l \<Rightarrow> l | None \<Rightarrow> c)"

subsection \<open>The string methods the program calls\<close>

text \<open>\<^verbatim>\<open>s.lower()\<close>\<close>

definition py_lower :: "string \<Rightarrow> string" where
  "py_lower s = map lower_char s"

text \<open>\<^verbatim>\<open>s.strip()\<close> and \<^verbatim>\<open>s.strip(chars)\<close>: both ends are stripped.\<close>

definition strip_where :: "(char \<Rightarrow> bool) \<Rightarrow> string \<Rightarrow> string" where
  "strip_where p s = rev (dropWhile p (rev (dropWhile p s)))"

definition py_strip :: "string \<Rightarrow> string" where
  "py_strip s = strip_where is_space s"

definition py_strip_chars :: "string \<Rightarrow> string \<Rightarrow> string" where
  "py_strip_chars chars s = strip_where (\<lambda>c. c \<in> set chars) s"

text \<open>\<^verbatim>\<open>s.startswith(p)\<close>, \<^verbatim>\<open>s.endswith(p)\<close> and \<^verbatim>\<open>sub in s\<close>\<close>

fun startswith :: "string \<Rightarrow> string \<Rightarrow> bool" where
  "startswith s [] = True"
| "startswith [] (c # p) = False"
| "startswith (d # s) (c # p) = (if d = c then startswith s p else False)"

definition endswith :: "string \<Rightarrow> string \<Rightarrow> bool" where
  "endswith s p = (length p \<le> length s \<and> drop (length s - length p) s = p)"

fun py_in :: "string \<Rightarrow> string \<Rightarrow> bool" where
  "py_in sub [] = (sub = [])"
| "py_in sub (c # cs) = (if startswith (c # cs) sub then True else py_in sub cs)"

text \<open>\<^verbatim>\<open>s.split()\<close>: the maximal runs of characters that are not spaces.\<close>

function py_split :: "string \<Rightarrow> string list" where
  "py_split [] = []"
| "py_split (c # cs) =
     (if is_space c then py_split cs
      else takeWhile (\<lambda>d. \<not> is_space d) (c # cs) # py_split (dropWhile (\<lambda>d. \<not> is_space d) cs))"
  by pat_completeness auto
termination
  by (relation "measure length") (auto simp: less_Suc_eq_le length_dropWhile_le)

text \<open>\<^verbatim>\<open>s.count(c)\<close> for a character \<open>c\<close>\<close>

definition py_count :: "string \<Rightarrow> char \<Rightarrow> int" where
  "py_count s c = int (length (filter (\<lambda>d. d = c) s))"

subsection \<open>\<^verbatim>\<open>urllib.parse.unquote\<close>\<close>

text \<open>The value of a hexadecimal digit, in either case.\<close>

definition hex_val :: "char \<Rightarrow> nat option" where
  "hex_val c = map_of (zip ''0123456789abcdef'' [0 ..< 16] @ zip ''ABCDEF'' [10 ..< 16]) c"

text \<open>
  A \<^verbatim>\<open>%\<close> followed by two hexadecimal digits becomes the byte they write; any other \<^verbatim>\<open>%\<close>
  stays. A byte below 128 is its ASCII character; a byte from 128 on stands for itself
  (Python decodes runs of such bytes as UTF-8, which leaves ASCII).
\<close>

fun unquote_impl :: "string \<Rightarrow> string" where
  "unquote_impl (c # h # l # cs) =
     (if c = CHR ''%'' then
        (case (hex_val h, hex_val l) of
           (Some a, Some b) \<Rightarrow> char_of (16 * a + b) # unquote_impl cs
         | _ \<Rightarrow> c # unquote_impl (h # l # cs))
      else c # unquote_impl (h # l # cs))"
| "unquote_impl (c # cs) = c # unquote_impl cs"
| "unquote_impl [] = []"

definition unquote :: "string \<Rightarrow> string" where
  "unquote s = (if CHR ''%'' \<notin> set s then s else unquote_impl s)"

subsection \<open>Text preprocessing\<close>

text \<open>\<^verbatim>\<open>re.sub(r'\s+', ' ', text)\<close>: every maximal run of spaces becomes one blank.\<close>

function collapse_ws :: "string \<Rightarrow> string" where
  "collapse_ws [] = []"
| "collapse_ws (c # cs) =
     (if is_space c then CHR '' '' # collapse_ws (dropWhile is_space cs)
      else c # collapse_ws cs)"
  by pat_completeness auto
termination
  by (relation "measure length") (auto simp: less_Suc_eq_le length_dropWhile_le)

text \<open>
  \<^verbatim>\<open>re.sub(r'([!?.]){2,}', r'\1', text)\<close>: scanning from the left, a run of two or more
  characters of \<^verbatim>\<open>!?.\<close> is matched greedily and replaced by group 1, which holds the last
  repetition of the group, that is the last character of the run.
\<close>

definition is_punct3 :: "char \<Rightarrow> bool" where
  "is_punct3 c = (c = CHR ''!'' \<or> c = CHR ''?'' \<or> c = CHR ''.'')"

function collapse_punct :: "string \<Rightarrow> string" where
  "collapse_punct [] = []"
| "collapse_punct (c # cs) =
     (if 2 \<le> length (takeWhile is_punct3 (c # cs))
      then last (takeWhile is_punct3 (c # cs)) # collapse_punct (dropWhile is_punct3 cs)
      else c # collapse_punct cs)"
  by pat_completeness auto
termination
  by (relation "measure length") (auto simp: less_Suc_eq_le length_dropWhile_le)

definition preprocess_text :: "string \<Rightarrow> string" where
  "preprocess_text text =
     (if text = [] then []
      else collapse_punct (unquote (collapse_ws (py_strip (py_lower text)))))"

subsection \<open>URL extraction\<close>

text \<open>
  The pattern \<^verbatim>\<open>(https?://\S+|www\.\S+|bit\.ly/\S+|tinyurl\.com/\S+|goo\.gl/\S+)\<close>: one of
  the literal prefixes, then one or more characters that are not spaces, as many as there are.
  The alternatives are tried in order, \<^verbatim>\<open>https://\<close> before \<^verbatim>\<open>http://\<close> as the optional
  \<^verbatim>\<open>s\<close> is greedy.
\<close>

definition url_prefixes :: "string list" where
  "url_prefixes = [''https://'', ''http://'', ''www.'', ''bit.ly/'', ''tinyurl.com/'', ''goo.gl/'']"

definition nonspace_run :: "string \<Rightarrow> string" where
  "nonspace_run s = takeWhile (\<lambda>c. \<not> is_space c) s"

definition match_prefix :: "string \<Rightarrow> string \<Rightarrow> string option" where
  "match_prefix p s =
     (if startswith s p then
        (if nonspace_run (drop (length p) s) \<noteq> []
         then Some (p @ nonspace_run (drop (length p) s)) else None)
      else None)"

fun match_first :: "string list \<Rightarrow> string \<Rightarrow> string option" where
  "match_first [] s = None"
| "match_first (p # ps) s =
     (case match_prefix p s of Some m \<Rightarrow> Some m | None \<Rightarrow> match_first ps s)"

definition match_url :: "string \<Rightarrow> string option" where
  "match_url s = match_first url_prefixes s"

text \<open>\<^verbatim>\<open>re.findall\<close>: the leftmost match, then the search goes on after it.\<close>

function findall_urls :: "string \<Rightarrow> string list" where
  "findall_urls [] = []"
| "findall_urls (c # cs) =
     (case match_url (c # cs) of
        Some m \<Rightarrow> m # findall_urls (drop (length m - 1) cs)
      | None \<Rightarrow> findall_urls cs)"
  by pat_completeness auto
termination
  by (relation "measure length") (auto simp: less_Suc_eq_le)

definition url_strip_chars :: "string" where
  "url_strip_chars = [CHR ''.'', CHR '','', CHR '';'', CHR '':'', CHR ''('', CHR '')'',
     CHR ''['', CHR '']'', CHR ''{'', CHR ''}'', CHR 0x22, CHR 0x27]"

definition extract_urls :: "string \<Rightarrow> string list" where
  "extract_urls text = map (py_strip_chars url_strip_chars) (findall_urls text)"

subsection \<open>\<^verbatim>\<open>urllib.parse.urlparse\<close>\<close>

datatype py_error = KeyError string | ValueError string

record parsed_url =
  scheme :: string
  netloc :: string
  path :: string

definition is_scheme_char :: "char \<Rightarrow> bool" where
  "is_scheme_char c = (is_alpha c \<or> is_digit c \<or> c = CHR ''+'' \<or> c = CHR ''-'' \<or> c = CHR ''.'')"

definition uses_params :: "string list" where
  "uses_params = [[], ''ftp'', ''hdl'', ''prospero'', ''http'', ''imap'', ''https'', ''shttp'',
     ''rtsp'', ''rtsps'', ''rtspu'', ''sip'', ''sips'', ''mms'', ''sftp'', ''tel'']"

text \<open>
  The scheme is what stands before the first colon, when that is a letter followed by
  scheme characters; \<open>split_scheme\<close> returns it in lower case with the rest of the URL.
\<close>

definition split_scheme :: "string \<Rightarrow> string \<times> string" where
  "split_scheme url =
     (let pre = takeWhile (\<lambda>c. c \<noteq> CHR '':'') url in
      if CHR '':'' \<in> set url \<and> pre \<noteq> [] \<and> is_alpha (hd pre) \<and> list_all is_scheme_char pre
      then (py_lower pre, drop (length pre + 1) url)
      else ([], url))"

definition is_netloc_delim :: "char \<Rightarrow> bool" where
  "is_netloc_delim c = (c = CHR ''/'' \<or> c = CHR ''?'' \<or> c = CHR ''#'')"

text \<open>
  \<^verbatim>\<open>_splitparams\<close>, called when the path holds a semicolon: the parameters of the last
  segment are cut off.
\<close>

definition split_params :: "string \<Rightarrow> string" where
  "split_params url =
     (if CHR ''/'' \<in> set url then
        (let seg = rev (takeWhile (\<lambda>c. c \<noteq> CHR ''/'') (rev url));
             front = take (length url - length seg) url
         in if CHR '';'' \<in> set seg then front @ takeWhile (\<lambda>c. c \<noteq> CHR '';'') seg else url)
      else takeWhile (\<lambda>c. c \<noteq> CHR '';'') url)"

text \<open>
  \<^verbatim>\<open>urlparse(url)\<close>, as far as scheme, netloc and path go. Leading control characters and
  spaces are dropped, then TAB, CR and LF anywhere. A netloc with only one of the two square
  brackets raises \<^verbatim>\<open>ValueError\<close>. (The validation of the host between two brackets as an
  IPv6 literal, which recent releases add, is not modelled: such a netloc is accepted.)
\<close>

definition urlparse :: "string \<Rightarrow> py_error + parsed_url" where
  "urlparse url0 =
     (let url1 = dropWhile (\<lambda>c. (of_char c :: nat) \<le> 32) url0;
          url2 = filter (\<lambda>c. c \<noteq> CHR 0x09 \<and> c \<noteq> CHR 0x0D \<and> c \<noteq> CHR 0x0A) url1;
          sch = fst (split_scheme url2);
          url3 = snd (split_scheme url2);
          has_netloc = (take 2 url3 = ''//'');
          nl = (if has_netloc then takeWhile (\<lambda>c. \<not> is_netloc_delim c) (drop 2 url3) else []);
          url4 = (if has_netloc then dropWhile (\<lambda>c. \<not> is_netloc_delim c) (drop 2 url3) else url3)
      in if (CHR ''['' \<in> set nl \<and> CHR '']'' \<notin> set nl) \<or> (CHR '']'' \<in> set nl \<and> CHR ''['' \<notin> set nl)
         then Inl (ValueError ''Invalid IPv6 URL'')
         else
           (let url5 = takeWhile (\<lambda>c. c \<noteq> CHR ''#'') url4;
                url6 = takeWhile (\<lambda>c. c \<noteq> CHR ''?'') url5;
                url7 = (if sch \<in> set uses_params \<and> CHR '';'' \<in> set url6 then split_params url6 else url6)
            in Inr \<lparr>scheme = sch, netloc = nl, path = url7\<rparr>))"

subsection \<open>Feature extraction\<close>

text \<open>The keyword tables of \<^verbatim>\<open>FeatureExtractor.__init__\<close>, in the order they are written.\<close>

definition threat_keywords :: "(string \<times> real) list" where
  "threat_keywords =
     [(''urgent'', 1.5), (''immediate'', 1.5), (''asap'', 1.5), (''critical'', 1.5),
      (''emergency'', 1.5), (''important'', 1.3), (''verify'', 1.4), (''confirm'', 1.3),
      (''suspended'', 1.6), (''blocked'', 1.6), (''locked'', 1.6), (''terminated'', 1.6),
      (''expired'', 1.4), (''warning'', 1.3), (''alert'', 1.3), (''attention'', 1.2),
      (''required'', 1.2), (''necessary'', 1.2), (''compulsory'', 1.3)]"

definition auth_keywords :: "(string \<times> real) list" where
  "auth_keywords =
     [(''login'', 1.4), (''password'', 1.6), (''credentials'', 1.6),
      (''authenticate'', 1.5), (''account'', 1.4), (''security'', 1.3),
      (''reset'', 1.5), (''update'', 1.3), (''verify'', 1.4), (''confirm'', 1.3),
      (''username'', 1.4), (''signin'', 1.4), (''sign-in'', 1.4),
      (''two-factor'', 1.5), (''2fa'', 1.5), (''multi-factor'', 1.5),
      (''access'', 1.3), (''authorize'', 1.4), (''validation'', 1.3)]"

definition financial_keywords :: "(string \<times> real) list" where
  "financial_keywords =
     [(''bank'', 1.5), (''paypal'', 1.6), (''credit'', 1.4), (''payment'', 1.4),
      (''money'', 1.3), (''refund'', 1.5), (''invoice'', 1.4), (''billing'', 1.4),
      (''transaction'', 1.5), (''otp'', 1.6), (''pin'', 1.6), (''card'', 1.5),
      (''wire'', 1.4), (''transfer'', 1.5), (''deposit'', 1.4), (''withdrawal'', 1.4),
      (''fee'', 1.3), (''charge'', 1.3), (''statement'', 1.3), (''balance'', 1.3)]"

definition impersonation_keywords :: "(string \<times> real) list" where
  "impersonation_keywords =
     [(''irs'', 1.6), (''microsoft'', 1.5), (''apple'', 1.5), (''google'', 1.5),
      (''amazon'', 1.5), (''paypal'', 1.6), (''fedex'', 1.4), (''ups'', 1.4),
      (''dhl'', 1.4), (''usps'', 1.4), (''government'', 1.5), (''official'', 1.4),
      (''support'', 1.3), (''customer'', 1.3), (''service'', 1.3), (''team'', 1.2)]"

definition url_shorteners :: "string list" where
  "url_shorteners =
     [''bit.ly'', ''tinyurl.com'', ''goo.gl'', ''ow.ly'', ''is.gd'',
      ''adf.ly'', ''shorte.st'', ''t.co'', ''buff.ly'', ''cutt.ly'',
      ''shorturl.at'', ''rb.gy'', ''bc.vc'', ''soo.gd'', ''s2r.co'',
      ''click.ru'', ''clck.ru'', ''tiny.cc'', ''tr.im'', ''qr.net'']"

definition suspicious_tlds :: "string list" where
  "suspicious_tlds = [''.xyz'', ''.top'', ''.club'', ''.work'', ''.site'', ''.online'', ''.click'', ''.link'']"

text \<open>
  \<^verbatim>\<open>sum(table[word] for word in tokens & table.keys())\<close>: the weight of every key of the
  table that is a token, once.
\<close>

definition keyword_score :: "(string \<times> real) list \<Rightarrow> string list \<Rightarrow> real" where
  "keyword_score table tokens = sum_list (map snd (filter (\<lambda>kw. fst kw \<in> set tokens) table))"

text \<open>The analysis of one URL: the full record, or the record of a parse that failed.\<close>

record url_info =
  original :: string
  domain :: string
  url_path :: string
  is_shortener :: bool
  has_suspicious_tld :: bool
  is_ip_address :: bool
  has_login_keywords :: bool
  url_length :: int

datatype url_analysis = Analyzed url_info | Parse_failed string

text \<open>\<^verbatim>\<open>re.match(r'\d+\.\d+\.\d+\.\d+', domain)\<close>, at the start of the domain.\<close>

definition eat_digits :: "string \<Rightarrow> string option" where
  "eat_digits s = (if takeWhile is_digit s = [] then None else Some (dropWhile is_digit s))"

fun eat_char :: "char \<Rightarrow> string \<Rightarrow> string option" where
  "eat_char d [] = None"
| "eat_char d (c # cs) = (if c = d then Some cs else None)"

definition match_ip :: "string \<Rightarrow> bool" where
  "match_ip s =
     (Option.bind (Option.bind (Option.bind (Option.bind (Option.bind (Option.bind (eat_digits s)
        (eat_char CHR ''.'')) eat_digits) (eat_char CHR ''.'')) eat_digits) (eat_char CHR ''.'')) eat_digits
      \<noteq> None)"

definition analyze_url :: "string \<Rightarrow> url_analysis" where
  "analyze_url url =
     (case urlparse (if startswith url ''http'' then url else ''http://'' @ url) of
        Inl e \<Rightarrow> Parse_failed url
      | Inr parsed \<Rightarrow>
          (let dom = py_lower (netloc parsed); pth = py_lower (path parsed) in
           Analyzed \<lparr>original = url, domain = dom, url_path = pth,
             is_shortener = list_ex (\<lambda>short. py_in short dom) url_shorteners,
             has_suspicious_tld = list_ex (\<lambda>tld. endswith dom tld) suspicious_tlds,
             is_ip_address = match_ip dom,
             has_login_keywords = list_ex (\<lambda>keyword. py_in keyword pth) [''login'', ''signin'', ''verify'', ''secure''],
             url_length = int (length url)\<rparr>))"

text \<open>\<^verbatim>\<open>url_feat[key]\<close>: the record of a failed parse has only the keys \<^verbatim>\<open>original\<close> and \<^verbatim>\<open>error\<close>.\<close>

fun get_flag :: "string \<Rightarrow> (url_info \<Rightarrow> bool) \<Rightarrow> url_analysis \<Rightarrow> py_error + bool" where
  "get_flag key field (Analyzed u) = Inr (field u)"
| "get_flag key field (Parse_failed url) = Inl (KeyError key)"

text \<open>The loop over the URLs, with the three counters and the list \<^verbatim>\<open>url_features\<close> as its state.\<close>

record url_state =
  cnt_suspicious_urls :: int
  cnt_suspicious_domains :: int
  cnt_ip_address_urls :: int
  url_features :: "url_analysis list"

fun url_loop :: "string list \<Rightarrow> url_state \<Rightarrow> py_error + url_state" where
  "url_loop [] st = Inr st"
| "url_loop (url # urls) st =
     (let url_feat = analyze_url url;
          st0 = st\<lparr>url_features := url_features st @ [url_feat]\<rparr> in
      case get_flag ''is_shortener'' is_shortener url_feat of
        Inl e \<Rightarrow> Inl e
      | Inr b1 \<Rightarrow>
          (let st1 = (if b1 then st0\<lparr>cnt_suspicious_urls := cnt_suspicious_urls st0 + 1\<rparr> else st0) in
           case get_flag ''has_suspicious_tld'' has_suspicious_tld url_feat of
             Inl e \<Rightarrow> Inl e
           | Inr b2 \<Rightarrow>
               (let st2 = (if b2 then st1\<lparr>cnt_suspicious_domains := cnt_suspicious_domains st1 + 1\<rparr> else st1) in
                case get_flag ''is_ip_address'' is_ip_address url_feat of
                  Inl e \<Rightarrow> Inl e
                | Inr b3 \<Rightarrow>
                    (let st3 = (if b3 then st2\<lparr>cnt_ip_address_urls := cnt_ip_address_urls st2 + 1\<rparr> else st2) in
                     url_loop urls st3))))"

definition calculate_caps_ratio :: "string \<Rightarrow> real" where
  "calculate_caps_ratio text =
     (if text = [] then 0
      else (let letters = filter is_alpha text in
            if letters = [] then 0
            else real (length (filter is_upper letters)) / real (length letters)))"

definition check_greeting :: "string \<Rightarrow> int" where
  "check_greeting text =
     (let first_50 = py_lower (take 50 text) in
      if list_ex (\<lambda>greet. py_in greet first_50)
           [''hi'', ''hello'', ''dear'', ''greetings'', ''good morning'', ''good afternoon'']
      then 0 else 1)"

text \<open>
  \<^verbatim>\<open>re.search\<close> tries the pattern at every position. The two patterns with \<^verbatim>\<open>\d+\<close> are
  \<^verbatim>\<open>within \d+ hours?\<close> and \<^verbatim>\<open>within \d+ days?\<close>, whose final \<^verbatim>\<open>s?\<close> matches in any case;
  the other six are literal.
\<close>

definition match_within :: "string \<Rightarrow> string \<Rightarrow> bool" where
  "match_within unit s =
     (if startswith s ''within '' then
        (case eat_digits (drop 7 s) of None \<Rightarrow> False | Some r \<Rightarrow> startswith r (CHR '' '' # unit))
      else False)"

fun search_within :: "string \<Rightarrow> string \<Rightarrow> bool" where
  "search_within unit [] = False"
| "search_within unit (c # cs) = (if match_within unit (c # cs) then True else search_within unit cs)"

definition check_urgency_indicators :: "string \<Rightarrow> int" where
  "check_urgency_indicators text =
     (if search_within ''hour'' text \<or> search_within ''day'' text \<or>
         list_ex (\<lambda>pattern. py_in pattern text)
           [''immediate action'', ''act now'', ''don'' @ [CHR 0x27] @ ''t delay'', ''limited time'',
            ''expires soon'', ''last chance'']
      then 1 else 0)"

definition check_generic_greeting :: "string \<Rightarrow> int" where
  "check_generic_greeting text =
     (let first_100 = py_lower (take 100 text) in
      if list_ex (\<lambda>greet. py_in greet first_100)
           [''dear customer'', ''dear user'', ''dear account holder'', ''valued customer'']
      then 1 else 0)"

text \<open>The feature dictionary, with its keys in the order \<^verbatim>\<open>extract_features\<close> sets them.\<close>

record features =
  threat_score :: real
  auth_score :: real
  financial_score :: real
  impersonation_score :: real
  total_urls :: int
  suspicious_urls :: int
  suspicious_domains :: int
  ip_address_urls :: int
  url_details :: "url_analysis list"
  exclamation_count :: int
  all_caps_ratio :: real
  digit_ratio :: real
  special_char_ratio :: real
  greeting_missing :: int
  sense_of_urgency :: int
  generic_greeting :: int

definition extract_features :: "string \<Rightarrow> py_error + features" where
  "extract_features text =
     (let tokens = py_split text;
          urls = extract_urls text in
      case url_loop urls \<lparr>cnt_suspicious_urls = 0, cnt_suspicious_domains = 0,
                         cnt_ip_address_urls = 0, url_features = []\<rparr> of
        Inl e \<Rightarrow> Inl e
      | Inr st \<Rightarrow>
          Inr \<lparr>threat_score = keyword_score threat_keywords tokens,
               auth_score = keyword_score auth_keywords tokens,
               financial_score = keyword_score financial_keywords tokens,
               impersonation_score = keyword_score impersonation_keywords tokens,
               total_urls = int (length urls),
               suspicious_urls = cnt_suspicious_urls st,
               suspicious_domains = cnt_suspicious_domains st,
               ip_address_urls = cnt_ip_address_urls st,
               url_details = url_features st,
               exclamation_count = py_count text CHR ''!'',
               all_caps_ratio = calculate_caps_ratio text,
               digit_ratio = real (length (filter is_digit text)) / real (max 1 (length text)),
               special_char_ratio = real (length (filter is_punctuation text)) / real (max 1 (length text)),
               greeting_missing = check_greeting text,
               sense_of_urgency = check_urgency_indicators text,
               generic_greeting = check_generic_greeting text\<rparr>)"

subsection \<open>The risk calculator\<close>

text \<open>The items of the feature dictionary: every value is an \<^verbatim>\<open>int\<close>, a \<^verbatim>\<open>float\<close> or a list.\<close>

datatype py_value = Py_int int | Py_float real | Py_list "url_analysis list"

definition items :: "features \<Rightarrow> (string \<times> py_value) list" where
  "items f =
     [(''threat_score'', Py_float (threat_score f)),
      (''auth_score'', Py_float (auth_score f)),
      (''financial_score'', Py_float (financial_score f)),
      (''impersonation_score'', Py_float (impersonation_score f)),
      (''total_urls'', Py_int (total_urls f)),
      (''suspicious_urls'', Py_int (suspicious_urls f)),
      (''suspicious_domains'', Py_int (suspicious_domains f)),
      (''ip_address_urls'', Py_int (ip_address_urls f)),
      (''url_details'', Py_list (url_details f)),
      (''exclamation_count'', Py_int (exclamation_count f)),
      (''all_caps_ratio'', Py_float (all_caps_ratio f)),
      (''digit_ratio'', Py_float (digit_ratio f)),
      (''special_char_ratio'', Py_float (special_char_ratio f)),
      (''greeting_missing'', Py_int (greeting_missing f)),
      (''sense_of_urgency'', Py_int (sense_of_urgency f)),
      (''generic_greeting'', Py_int (generic_greeting f))]"

definition weights :: "(string \<times> real) list" where
  "weights =
     [(''threat_score'', 0.8), (''auth_score'', 0.7), (''financial_score'', 0.9),
      (''impersonation_score'', 0.8),
      (''total_urls'', 1.5), (''suspicious_urls'', 2.5), (''suspicious_domains'', 2.0),
      (''ip_address_urls'', 3.0),
      (''exclamation_count'', 0.3), (''all_caps_ratio'', 0.5), (''digit_ratio'', 0.4),
      (''special_char_ratio'', 0.3),
      (''greeting_missing'', 0.6), (''sense_of_urgency'', 1.2), (''generic_greeting'', 0.7)]"

definition high_risk :: real where "high_risk = 7.5"
definition medium_risk :: real where "medium_risk = 5.0"
definition low_risk :: real where "low_risk = 3.0"

text \<open>\<^verbatim>\<open>isinstance(value, (int, float))\<close>\<close>

fun numeric :: "py_value \<Rightarrow> real option" where
  "numeric (Py_int i) = Some (real_of_int i)"
| "numeric (Py_float x) = Some x"
| "numeric (Py_list l) = None"

text \<open>\<^verbatim>\<open>10 * (1 / (1 + 2.718 ** (-10 * (value - 0.3))))\<close>\<close>

definition ratio_scale :: "real \<Rightarrow> real" where
  "ratio_scale v = 10 * (1 / (1 + 2.718 powr (- 10 * (v - 0.3))))"

definition logistic_scale :: "real \<Rightarrow> real" where
  "logistic_scale x = 10 / (1 + 2.718 powr (- 0.5 * (x - 5)))"

text \<open>One round of the loop over the items: what the item adds to \<^verbatim>\<open>base_score\<close>.\<close>

definition contribution :: "string \<times> py_value \<Rightarrow> real" where
  "contribution item =
     (case (map_of weights (fst item), numeric (snd item)) of
        (Some w, Some v) \<Rightarrow>
          (if fst item \<in> set [''all_caps_ratio'', ''digit_ratio'', ''special_char_ratio'']
           then ratio_scale v * w
           else v * w)
      | _ \<Rightarrow> 0)"

definition base_score :: "features \<Rightarrow> real" where
  "base_score f = foldl (\<lambda>acc item. acc + contribution item) 0 (items f)"

text \<open>
  \<^verbatim>\<open>round(x, 1)\<close>: to the nearest multiple of one tenth, a tie going to the even one.
\<close>

definition round_half_even :: "real \<Rightarrow> int" where
  "round_half_even y =
     (let n = \<lfloor>y\<rfloor>; d = y - of_int n in
      if d < 1 / 2 then n else if 1 / 2 < d then n + 1 else if even n then n else n + 1)"

definition py_round1 :: "real \<Rightarrow> real" where
  "py_round1 x = of_int (round_half_even (x * 10)) / 10"

text \<open>\<^verbatim>\<open>sum(penalty_factors)\<close>: how many of the three conditions hold.\<close>

definition penalty_factors :: "features \<Rightarrow> bool list" where
  "penalty_factors f = [0 < suspicious_urls f, 2 < threat_score f, 2 < auth_score f]"

definition compressed_score :: "features \<Rightarrow> real" where
  "compressed_score f = min 10 (py_round1 (logistic_scale (base_score f)))"

definition calculate_score :: "features \<Rightarrow> real" where
  "calculate_score f =
     (let risk_score = compressed_score f in
      if 2 \<le> length (filter id (penalty_factors f)) then min 10 (risk_score + 1)
      else risk_score)"

subsection \<open>The detector\<close>

datatype severity = Critical | High | Medium | Low

record keyword_lists =
  kw_threat :: "string list"
  kw_auth :: "string list"
  kw_financial :: "string list"
  kw_impersonation :: "string list"

datatype explanation =
    Threat_indicators real
  | Auth_terms real
  | Financial_terms real
  | Shortened_urls int
  | Urgency_tactics
  | Greeting_missing
  | Excessive_exclamation int

text \<open>
  The dictionary \<^verbatim>\<open>_classify\<close> returns, with the two entries \<^verbatim>\<open>detect\<close> adds. The
  classification label is written without its leading emoji.
\<close>

record analysis =
  original_text :: string
  processed_text :: string
  result_features :: features
  risk_score :: real
  classification :: string
  confidence :: string
  advice :: string
  color :: string
  result_severity :: severity
  detected_keywords :: keyword_lists
  timestamp :: string
  feature_explanations :: "explanation list"
  recommendations :: "string list"

text \<open>What \<^verbatim>\<open>detect\<close> returns: the dictionary of \<^verbatim>\<open>_error_response\<close> or that of an analysis.\<close>

datatype response =
    Error_response (status: string) (message: string) (error_timestamp: string)
  | Analysis_result analysis

definition error_response :: "string \<Rightarrow> string \<Rightarrow> response" where
  "error_response now msg = Error_response ''error'' msg now"

definition extract_detected_keywords :: "string \<Rightarrow> keyword_lists" where
  "extract_detected_keywords text =
     (let tokens = py_split text in
      \<lparr>kw_threat = filter (\<lambda>k. k \<in> set tokens) (map fst threat_keywords),
       kw_auth = filter (\<lambda>k. k \<in> set tokens) (map fst auth_keywords),
       kw_financial = filter (\<lambda>k. k \<in> set tokens) (map fst financial_keywords),
       kw_impersonation = filter (\<lambda>k. k \<in> set tokens) (map fst impersonation_keywords)\<rparr>)"

definition severity_of :: "real \<Rightarrow> severity" where
  "severity_of score =
     (if high_risk \<le> score then Critical
      else if medium_risk \<le> score then High
      else if low_risk \<le> score then Medium
      else Low)"

definition classify :: "string \<Rightarrow> real \<Rightarrow> features \<Rightarrow> string \<Rightarrow> string \<Rightarrow> analysis" where
  "classify now score feats orig processed =
     (let sev = severity_of score in
      \<lparr>original_text = orig,
       processed_text = processed,
       result_features = feats,
       risk_score = score,
       classification =
         (case sev of Critical \<Rightarrow> ''High Risk Phishing'' | High \<Rightarrow> ''Suspicious Message''
          | Medium \<Rightarrow> ''Moderate Risk'' | Low \<Rightarrow> ''Likely Safe''),
       confidence =
         (case sev of Critical \<Rightarrow> ''Very High'' | High \<Rightarrow> ''Medium-High''
          | Medium \<Rightarrow> ''Medium'' | Low \<Rightarrow> ''High''),
       advice =
         (case sev of
            Critical \<Rightarrow> ''DO NOT interact. This is highly likely to be a phishing attempt.''
          | High \<Rightarrow> ''Exercise extreme caution. Verify sender through official channels.''
          | Medium \<Rightarrow> ''Be cautious. Check for unusual elements before taking action.''
          | Low \<Rightarrow> ''Message appears safe, but remain vigilant.''),
       color =
         (case sev of Critical \<Rightarrow> ''#dc2626'' | High \<Rightarrow> ''#f97316''
          | Medium \<Rightarrow> ''#f59e0b'' | Low \<Rightarrow> ''#16a34a''),
       result_severity = sev,
       detected_keywords = extract_detected_keywords processed,
       timestamp = now,
       feature_explanations = [],
       recommendations = []\<rparr>)"

definition explain_features :: "features \<Rightarrow> explanation list" where
  "explain_features f =
     (if 1 < threat_score f then [Threat_indicators (threat_score f)] else []) @
     (if 1 < auth_score f then [Auth_terms (auth_score f)] else []) @
     (if 1 < financial_score f then [Financial_terms (financial_score f)] else []) @
     (if 0 < suspicious_urls f then [Shortened_urls (suspicious_urls f)] else []) @
     (if 0 < sense_of_urgency f then [Urgency_tactics] else []) @
     (if 0 < greeting_missing f then [Greeting_missing] else []) @
     (if 3 < exclamation_count f then [Excessive_exclamation (exclamation_count f)] else [])"

definition generate_recommendations :: "string \<Rightarrow> string list" where
  "generate_recommendations cls =
     (if py_in ''High Risk'' cls then
        [''Do not click any links'', ''Do not download attachments'',
         ''Do not reply with personal information'', ''Report to your IT security team'',
         ''Delete the message after reporting'']
      else if py_in ''Suspicious'' cls then
        [''Verify sender'' @ [CHR 0x27] @ ''s email address carefully'',
         ''Contact the organization through official channels'',
         ''Hover over links to preview destination URLs'',
         ''Check for spelling and grammar errors'', ''Look for generic greetings'']
      else
        [''Verify sender identity if unsure'', ''Check URLs before clicking'',
         ''Enable two-factor authentication'', ''Keep security software updated'',
         ''Regularly change passwords''])"

text \<open>
  \<^verbatim>\<open>PhishingDetector.detect\<close>. The detector holds its extractor and its calculator as
  fields; \<open>detect_with\<close> is the method for any two such collaborators, \<open>detect\<close> the method
  of the detector that \<^verbatim>\<open>__init__\<close> builds.
\<close>

definition detect_with ::
  "(string \<Rightarrow> py_error + features) \<Rightarrow> (features \<Rightarrow> real) \<Rightarrow> string \<Rightarrow> string \<Rightarrow> py_error + response" where
  "detect_with extractor calculator now text =
     (if text = [] \<or> py_strip text = [] then
        Inr (error_response now ''Please enter a message to analyze'')
      else
        (let processed = preprocess_text text in
         case extractor processed of
           Inl e \<Rightarrow> Inl e
         | Inr feats \<Rightarrow>
             (let score = calculator feats;
                  result = classify now score feats text processed
              in Inr (Analysis_result
                   (result\<lparr>feature_explanations := explain_features feats,
                           recommendations := generate_recommendations (classification result)\<rparr>)))))"

definition detect :: "string \<Rightarrow> string \<Rightarrow> py_error + response" where
  "detect now text = detect_with extract_features calculate_score now text"

text \<open>Reading a key of the returned dictionary: \<^verbatim>\<open>result.get(key)\<close>.\<close>

fun get_risk_score :: "response \<Rightarrow> real option" where
  "get_risk_score (Error_response st msg ts) = None"
| "get_risk_score (Analysis_result a) = Some (risk_score a)"

fun get_features :: "response \<Rightarrow> features option" where
  "get_features (Error_response st msg ts) = None"
| "get_features (Analysis_result a) = Some (result_features a)"

fun get_severity :: "response \<Rightarrow> severity option" where
  "get_severity (Error_response st msg ts) = None"
| "get_severity (Analysis_result a) = Some (result_severity a)"

fun get_status :: "response \<Rightarrow> string option" where
  "get_status (Error_response st msg ts) = Some st"
| "get_status (Analysis_result a) = None"

fun get_message :: "response \<Rightarrow> string option" where
  "get_message (Error_response st msg ts) = Some msg"
| "get_message (Analysis_result a) = None"

fun get_timestamp :: "response \<Rightarrow> string option" where
  "get_timestamp (Error_response st msg ts) = Some ts"
| "get_timestamp (Analysis_result a) = Some (timestamp a)"

subsection \<open>The severity bands of the specification\<close>

text \<open>
  The table of the specification: critical from 7.5 on, high from 5.0 to below 7.5, medium
  from 3.0 to below 5.0, low below 3.0. It is written here from the specification, to be
  compared with \<open>severity_of\<close>, which is the chain of comparisons of \<^verbatim>\<open>_classify\<close>.
\<close>

definition in_band :: "severity \<Rightarrow> real \<Rightarrow> bool" where
  "in_band b s =
     (case b of
        Critical \<Rightarrow> 7.5 \<le> s
      | High \<Rightarrow> 5 \<le> s \<and> s < 7.5
      | Medium \<Rightarrow> 3 \<le> s \<and> s < 5
      | Low \<Rightarrow> s < 3)"

subsection \<open>Notions used to state and prove the properties\<close>

text \<open>
  \<open>drop_repeated p\<close> keeps, of every maximal run of characters that satisfy \<open>p\<close>, the last
  one; \<open>adjacent_pair p s\<close> says that two neighbours in \<open>s\<close> both satisfy \<open>p\<close>; \<open>blank\<close>
  turns every space character into the blank. The two substitutions of \<open>preprocess_text\<close>
  are proved below to be run collapses of this kind.
\<close>

fun drop_repeated :: "(char \<Rightarrow> bool) \<Rightarrow> string \<Rightarrow> string" where
  "drop_repeated p [] = []"
| "drop_repeated p [c] = [c]"
| "drop_repeated p (c # d # cs) =
     (if p c \<and> p d then drop_repeated p (d # cs) else c # drop_repeated p (d # cs))"

fun adjacent_pair :: "(char \<Rightarrow> bool) \<Rightarrow> string \<Rightarrow> bool" where
  "adjacent_pair p [] = False"
| "adjacent_pair p [c] = False"
| "adjacent_pair p (c # d # cs) = (if p c \<and> p d then True else adjacent_pair p (d # cs))"

definition blank :: "char \<Rightarrow> char" where
  "blank c = (if is_space c then CHR '' '' else c)"

text \<open>
  The maximal runs of characters of \<^verbatim>\<open>!?.\<close> in a text, from left to right, and the number of
  those that hold an exclamation mark.
\<close>

function punct_runs :: "string \<Rightarrow> string list" where
  "punct_runs [] = []"
| "punct_runs (c # cs) =
     (if is_punct3 c then takeWhile is_punct3 (c # cs) # punct_runs (dropWhile is_punct3 cs)
      else punct_runs cs)"
  by pat_completeness auto
termination
  by (relation "measure length") (auto simp: less_Suc_eq_le length_dropWhile_le)

definition bang_runs :: "string \<Rightarrow> nat" where
  "bang_runs s = length (filter (\<lambda>r. CHR ''!'' \<in> set r) (punct_runs s))"

subsection \<open>Example inputs\<close>

text \<open>A feature record with one shortened URL and a threat score above 2.\<close>

definition f_two :: features where
  "f_two = \<lparr>threat_score = 4.6, auth_score = 0, financial_score = 0, impersonation_score = 0,
     total_urls = 1, suspicious_urls = 1, suspicious_domains = 0, ip_address_urls = 0,
     url_details = [], exclamation_count = 0, all_caps_ratio = 0, digit_ratio = 0,
     special_char_ratio = 0, greeting_missing = 0, sense_of_urgency = 0, generic_greeting = 0\<rparr>"

text \<open>The first message of \<^verbatim>\<open>get_example_messages\<close>, and the feature record it yields.\<close>

definition banking_phishing_text :: string where
  "banking_phishing_text = ''URGENT: Your bank account has been SUSPENDED due to suspicious activity. Click http://bit.ly/secure-bank-login to VERIFY your identity immediately or your account will be TERMINATED within 24 hours!''"

definition banking_features :: features where
  "banking_features =
     \<lparr>threat_score = 23 / 5, auth_score = 14 / 5, financial_score = 3 / 2,
      impersonation_score = 0, total_urls = 1, suspicious_urls = 1,
      suspicious_domains = 0, ip_address_urls = 0,
      url_details =
        [Analyzed
          \<lparr>original = ''http://bit.ly/secure-bank-login'',
           domain = ''bit.ly'', url_path = ''/secure-bank-login'',
           is_shortener = True, has_suspicious_tld = False,
           is_ip_address = False, has_login_keywords = True,
           url_length = 31\<rparr>],
      exclamation_count = 1, all_caps_ratio = 0, digit_ratio = 1 / 99,
      special_char_ratio = 5 / 99, greeting_missing = 1,
      sense_of_urgency = 1, generic_greeting = 0\<rparr>"

section \<open>Properties\<close>

subsection \<open>URL extraction\<close>

lemma strip_where_last: "strip_where p s \<noteq> [] \<Longrightarrow> \<not> p (last (strip_where p s))"
proof -
  assume ne: "strip_where p s \<noteq> []"
  define xs where "xs = dropWhile p (rev (dropWhile p s))"
  have s: "strip_where p s = rev xs" by (simp add: strip_where_def xs_def)
  with ne have "xs \<noteq> []" by simp
  then have "\<not> p (hd xs)" unfolding xs_def by (rule hd_dropWhile)
  moreover have "last (rev xs) = hd xs" using \<open>xs \<noteq> []\<close> by (simp add: last_rev)
  ultimately show ?thesis by (simp add: s)
qed

lemma strip_where_keeps_head:
  assumes "s \<noteq> []" "\<not> p (hd s)"
  shows "strip_where p s \<noteq> []"
proof -
  from assms have d: "dropWhile p s = s" by (cases s) auto
  from assms have "hd s \<in> set (rev s)" by simp
  with assms(2) have "dropWhile p (rev s) \<noteq> []" by (auto simp: dropWhile_eq_Nil_conv)
  then show ?thesis by (simp add: strip_where_def d)
qed

lemma match_prefix_head:
  "match_prefix p s = Some m \<Longrightarrow> p \<noteq> [] \<Longrightarrow> m \<noteq> [] \<and> hd m = hd p"
  by (auto simp: match_prefix_def split: if_splits)

lemma match_url_head: "match_url s = Some m \<Longrightarrow> m \<noteq> [] \<and> hd m \<notin> set url_strip_chars"
  unfolding match_url_def url_prefixes_def
  by (auto simp: url_strip_chars_def split: option.splits dest!: match_prefix_head)

lemma findall_urls_match: "u \<in> set (findall_urls s) \<Longrightarrow> \<exists>t. match_url t = Some u"
  by (induction s rule: findall_urls.induct) (auto split: option.splits)

lemma extract_urls_stripped:
  assumes "u \<in> set (extract_urls text)"
  shows "u \<noteq> [] \<and> last u \<notin> set url_strip_chars"
proof -
  from assms obtain m where m: "m \<in> set (findall_urls text)"
    and u: "u = strip_where (\<lambda>c. c \<in> set url_strip_chars) m"
    by (auto simp: extract_urls_def py_strip_chars_def)
  from findall_urls_match[OF m] obtain t where "match_url t = Some m" ..
  then have "m \<noteq> []" "hd m \<notin> set url_strip_chars" using match_url_head by blast+
  then have ne: "u \<noteq> []" unfolding u by (rule strip_where_keeps_head)
  with strip_where_last[of "\<lambda>c. c \<in> set url_strip_chars" m] show ?thesis by (simp add: u)
qed

text \<open>
  Claim C8. \<^verbatim>\<open>extract_urls("Visit http://bit.ly/abc now")\<close> is the one-element list
  \<^verbatim>\<open>["http://bit.ly/abc"]\<close>: neither the prose before the URL nor the word after it is
  part of the match. And whatever the text, every URL returned is a match from which the
  trailing characters of \<^verbatim>\<open>.,;:()[]{}"'\<close> have been stripped: it is not empty and its
  last character is none of them.
\<close>

theorem extract_urls_example:
  "extract_urls ''Visit http://bit.ly/abc now'' = [''http://bit.ly/abc''] \<and>
   (\<forall>text. extract_urls text = map (py_strip_chars url_strip_chars) (findall_urls text)) \<and>
   (\<forall>text. \<forall>u \<in> set (extract_urls text). u \<noteq> [] \<and> last u \<notin> set url_strip_chars)"
proof (intro conjI allI ballI)
  show "extract_urls ''Visit http://bit.ly/abc now'' = [''http://bit.ly/abc'']"
    by code_simp
next
  fix t
  show "extract_urls t = map (py_strip_chars url_strip_chars) (findall_urls t)"
    by (simp add: extract_urls_def)
next
  fix t u
  assume "u \<in> set (extract_urls t)"
  then show "u \<noteq> []" by (simp add: extract_urls_stripped)
next
  fix t u
  assume "u \<in> set (extract_urls t)"
  then show "last u \<notin> set url_strip_chars" by (simp add: extract_urls_stripped)
qed

theorem extract_urls_example_witness:
  "''http://bit.ly/abc'' \<in> set (extract_urls ''Open (http://bit.ly/abc). Then reply'') \<and>
   last ''http://bit.ly/abc'' \<notin> set url_strip_chars"
proof -
  have m: "''http://bit.ly/abc'' \<in> set (extract_urls ''Open (http://bit.ly/abc). Then reply'')"
    by code_simp
  from extract_urls_example have
    "\<forall>u \<in> set (extract_urls ''Open (http://bit.ly/abc). Then reply''). u \<noteq> [] \<and> last u \<notin> set url_strip_chars"
    by blast
  with m show ?thesis by blast
qed

subsection \<open>The risk calculator\<close>

lemma base_score_eq:
  "base_score f =
     threat_score f * 0.8 + auth_score f * 0.7 + financial_score f * 0.9 +
     impersonation_score f * 0.8 +
     real_of_int (total_urls f) * 1.5 + real_of_int (suspicious_urls f) * 2.5 +
     real_of_int (suspicious_domains f) * 2 + real_of_int (ip_address_urls f) * 3 +
     real_of_int (exclamation_count f) * 0.3 +
     ratio_scale (all_caps_ratio f) * 0.5 + ratio_scale (digit_ratio f) * 0.4 +
     ratio_scale (special_char_ratio f) * 0.3 +
     real_of_int (greeting_missing f) * 0.6 + real_of_int (sense_of_urgency f) * 1.2 +
     real_of_int (generic_greeting f) * 0.7"
  by (simp add: base_score_def items_def contribution_def weights_def)

lemma logistic_scale_pos: "0 < logistic_scale x"
  by (simp add: logistic_scale_def add_pos_pos)

lemma logistic_scale_mono: "x \<le> y \<Longrightarrow> logistic_scale x \<le> logistic_scale y"
proof -
  assume "x \<le> y"
  then have "- 0.5 * (y - 5) \<le> - 0.5 * (x - 5)" by simp
  then have "(2.718::real) powr (- 0.5 * (y - 5)) \<le> 2.718 powr (- 0.5 * (x - 5))"
    by (intro powr_mono) simp_all
  then show ?thesis
    unfolding logistic_scale_def
    by (intro divide_left_mono) (simp_all add: add_pos_pos)
qed

lemma round_half_even_bounds: "\<lfloor>y\<rfloor> \<le> round_half_even y \<and> round_half_even y \<le> \<lfloor>y\<rfloor> + 1"
  by (simp add: round_half_even_def Let_def)

lemma round_half_even_mono:
  assumes "a \<le> b"
  shows "round_half_even a \<le> round_half_even b"
proof (cases "\<lfloor>a\<rfloor> = \<lfloor>b\<rfloor>")
  case True
  with assms have "a - of_int \<lfloor>a\<rfloor> \<le> b - of_int \<lfloor>b\<rfloor>" by simp
  with True show ?thesis by (auto simp: round_half_even_def Let_def)
next
  case False
  with floor_mono[OF assms] have "\<lfloor>a\<rfloor> < \<lfloor>b\<rfloor>" by linarith
  with round_half_even_bounds[of a] round_half_even_bounds[of b] show ?thesis by linarith
qed

lemma py_round1_mono: "x \<le> y \<Longrightarrow> py_round1 x \<le> py_round1 y"
  by (simp add: py_round1_def round_half_even_mono divide_right_mono)

lemma py_round1_nonneg: "0 \<le> x \<Longrightarrow> 0 \<le> py_round1 x"
proof -
  assume "0 \<le> x"
  then have "0 \<le> \<lfloor>x * 10\<rfloor>" by simp
  with round_half_even_bounds[of "x * 10"] have "0 \<le> round_half_even (x * 10)" by linarith
  then show ?thesis by (simp add: py_round1_def)
qed

lemma compressed_score_bounds: "0 \<le> compressed_score f \<and> compressed_score f \<le> 10"
  using py_round1_nonneg[of "logistic_scale (base_score f)"] logistic_scale_pos[of "base_score f"]
  by (simp add: compressed_score_def)

lemma calculate_score_bounds: "0 \<le> calculate_score f \<and> calculate_score f \<le> 10"
  using compressed_score_bounds[of f] by (simp add: calculate_score_def Let_def)

lemma in_band_severity_of: "in_band (severity_of s) s"
  by (simp add: in_band_def severity_of_def high_risk_def medium_risk_def low_risk_def)

lemma in_band_unique: "in_band b s \<Longrightarrow> b = severity_of s"
  by (cases b) (auto simp: in_band_def severity_of_def high_risk_def medium_risk_def low_risk_def)

lemma count_penalty_factors:
  "(2 \<le> length (filter id (penalty_factors f))) =
   ((0 < suspicious_urls f \<and> 2 < threat_score f) \<or> (0 < suspicious_urls f \<and> 2 < auth_score f) \<or>
    (2 < threat_score f \<and> 2 < auth_score f))"
  by (auto simp: penalty_factors_def)

lemma compressed_score_mono: "base_score f \<le> base_score g \<Longrightarrow> compressed_score f \<le> compressed_score g"
  unfolding compressed_score_def
  by (intro min.mono order_refl py_round1_mono logistic_scale_mono)

text \<open>
  Claim C3. When at least two of \<open>suspicious_urls > 0\<close>, \<open>threat_score > 2\<close> and
  \<open>auth_score > 2\<close> hold, the score is the compressed and rounded score plus exactly 1,
  clamped again to 10; when fewer than two hold, it is the compressed and rounded score
  itself. In both cases it is at most 10.
\<close>

theorem multi_factor_penalty:
  "(((0 < suspicious_urls f \<and> 2 < threat_score f) \<or> (0 < suspicious_urls f \<and> 2 < auth_score f) \<or>
     (2 < threat_score f \<and> 2 < auth_score f)) \<longrightarrow>
      calculate_score f = min 10 (min 10 (py_round1 (logistic_scale (base_score f))) + 1)) \<and>
   (\<not> ((0 < suspicious_urls f \<and> 2 < threat_score f) \<or> (0 < suspicious_urls f \<and> 2 < auth_score f) \<or>
     (2 < threat_score f \<and> 2 < auth_score f)) \<longrightarrow>
      calculate_score f = min 10 (py_round1 (logistic_scale (base_score f)))) \<and>
   calculate_score f \<le> 10"
  using calculate_score_bounds[of f]
  by (simp add: calculate_score_def Let_def count_penalty_factors compressed_score_def)

theorem multi_factor_penalty_witness:
  "(0 < suspicious_urls (f_two) \<and> 2 < threat_score f_two) \<and>
   calculate_score f_two = min 10 (min 10 (py_round1 (logistic_scale (base_score f_two))) + 1) \<and>
   \<not> ((0 < suspicious_urls (f_two\<lparr>suspicious_urls := 0\<rparr>) \<and> 2 < threat_score (f_two\<lparr>suspicious_urls := 0\<rparr>)) \<or>
       (0 < suspicious_urls (f_two\<lparr>suspicious_urls := 0\<rparr>) \<and> 2 < auth_score (f_two\<lparr>suspicious_urls := 0\<rparr>)) \<or>
       (2 < threat_score (f_two\<lparr>suspicious_urls := 0\<rparr>) \<and> 2 < auth_score (f_two\<lparr>suspicious_urls := 0\<rparr>))) \<and>
   calculate_score (f_two\<lparr>suspicious_urls := 0\<rparr>) =
     min 10 (py_round1 (logistic_scale (base_score (f_two\<lparr>suspicious_urls := 0\<rparr>))))"
proof -
  have a: "0 < suspicious_urls f_two \<and> 2 < threat_score f_two" by (simp add: f_two_def)
  have b: "\<not> ((0 < suspicious_urls (f_two\<lparr>suspicious_urls := 0\<rparr>) \<and> 2 < threat_score (f_two\<lparr>suspicious_urls := 0\<rparr>)) \<or>
       (0 < suspicious_urls (f_two\<lparr>suspicious_urls := 0\<rparr>) \<and> 2 < auth_score (f_two\<lparr>suspicious_urls := 0\<rparr>)) \<or>
       (2 < threat_score (f_two\<lparr>suspicious_urls := 0\<rparr>) \<and> 2 < auth_score (f_two\<lparr>suspicious_urls := 0\<rparr>)))"
    by (simp add: f_two_def)
  from a multi_factor_penalty[of f_two]
  have c: "calculate_score f_two = min 10 (min 10 (py_round1 (logistic_scale (base_score f_two))) + 1)"
    by blast
  from b multi_factor_penalty[of "f_two\<lparr>suspicious_urls := 0\<rparr>"]
  have d: "calculate_score (f_two\<lparr>suspicious_urls := 0\<rparr>) =
     min 10 (py_round1 (logistic_scale (base_score (f_two\<lparr>suspicious_urls := 0\<rparr>))))"
    by blast
  from a b c d show ?thesis by blast
qed

text \<open>
  Claim C6. Raising \<open>suspicious_urls\<close> from 0 to 1, every other feature as it is, never
  lowers the score.
\<close>

theorem suspicious_url_monotone:
  "calculate_score (f\<lparr>suspicious_urls := 0\<rparr>) \<le> calculate_score (f\<lparr>suspicious_urls := 1\<rparr>)"
proof -
  let ?f0 = "f\<lparr>suspicious_urls := 0\<rparr>" and ?f1 = "f\<lparr>suspicious_urls := 1\<rparr>"
  have "base_score ?f0 \<le> base_score ?f1" by (simp add: base_score_eq)
  then have c: "compressed_score ?f0 \<le> compressed_score ?f1" by (rule compressed_score_mono)
  have n: "2 \<le> length (filter id (penalty_factors ?f0)) \<Longrightarrow> 2 \<le> length (filter id (penalty_factors ?f1))"
    by (simp add: count_penalty_factors)
  from c n compressed_score_bounds[of ?f0] show ?thesis
    by (auto simp: calculate_score_def Let_def)
qed

subsection \<open>The detector\<close>

lemma strip_where_all: "\<forall>c \<in> set s. p c \<Longrightarrow> strip_where p s = []"
proof -
  assume "\<forall>c \<in> set s. p c"
  then have d: "dropWhile p s = []" by (simp add: dropWhile_eq_Nil_conv)
  show ?thesis unfolding strip_where_def d by simp
qed

lemma strip_where_eq_Nil: "strip_where p s = [] \<Longrightarrow> \<forall>c \<in> set s. p c"
proof -
  assume "strip_where p s = []"
  then have "dropWhile p (rev (dropWhile p s)) = []" by (simp add: strip_where_def)
  then have "\<forall>c \<in> set (dropWhile p s). p c" by (simp add: dropWhile_eq_Nil_conv)
  moreover have "dropWhile p s \<noteq> [] \<Longrightarrow> \<not> p (hd (dropWhile p s))" by (rule hd_dropWhile)
  ultimately have "dropWhile p s = []" by (cases "dropWhile p s") auto
  then show ?thesis by (simp add: dropWhile_eq_Nil_conv)
qed

lemma detect_with_blank:
  "\<forall>c \<in> set t. is_space c \<Longrightarrow>
   detect_with extractor calculator now t = Inr (Error_response ''error'' ''Please enter a message to analyze'' now)"
  by (simp add: detect_with_def py_strip_def strip_where_all error_response_def)

lemma detect_analysis:
  assumes "\<not> (\<forall>c \<in> set t. is_space c)" and "extract_features (preprocess_text t) = Inr f"
  shows "\<exists>a. detect now t = Inr (Analysis_result a) \<and> result_features a = f \<and>
           risk_score a = calculate_score f \<and> result_severity a = severity_of (calculate_score f) \<and>
           processed_text a = preprocess_text t \<and> original_text a = t"
proof -
  from assms(1) have "t \<noteq> []" by auto
  moreover from assms(1) have "py_strip t \<noteq> []"
    unfolding py_strip_def using strip_where_eq_Nil[of is_space t] by blast
  ultimately show ?thesis using assms(2)
    by (simp add: detect_def detect_with_def Let_def classify_def)
qed

text \<open>
  Claim C2. For an input that is empty or holds only whitespace, \<open>detect\<close> returns the
  error dictionary: status \<open>error\<close>, the message, the timestamp, and no risk score and
  no features. The result is the same whatever the extractor and the calculator of the
  detector are: neither of them is consulted.
\<close>

theorem blank_input_error:
  assumes "\<forall>c \<in> set t. is_space c"
  shows "\<exists>r. detect now t = Inr r \<and>
           get_status r = Some ''error'' \<and>
           get_message r = Some ''Please enter a message to analyze'' \<and>
           get_timestamp r = Some now \<and>
           get_risk_score r = None \<and> get_features r = None \<and>
           (\<forall>extractor calculator. detect_with extractor calculator now t = Inr r)"
  using assms by (simp add: detect_def detect_with_blank)

theorem blank_input_error_witness:
  "is_space CHR '' '' \<and> is_space CHR 0x09 \<and>
   (\<exists>r. detect ''2026-01-01T00:00:00'' [CHR '' '', CHR 0x09, CHR '' ''] = Inr r \<and>
        get_status r = Some ''error'' \<and> get_risk_score r = None) \<and>
   (\<exists>r. detect ''2026-01-01T00:00:00'' [] = Inr r \<and>
        get_status r = Some ''error'' \<and> get_risk_score r = None)"
proof -
  have a: "\<forall>c \<in> set [CHR '' '', CHR 0x09, CHR '' '']. is_space c"
    by (simp add: is_space_def whitespace_def)
  have b: "\<forall>c \<in> set ([]::string). is_space c" by simp
  from blank_input_error[OF a, of "''2026-01-01T00:00:00''"] blank_input_error[OF b, of "''2026-01-01T00:00:00''"] a
  show ?thesis by auto
qed

text \<open>
  Claim C1. The score of the features extracted from the normalized text lies in the
  closed interval from 0 to 10; exactly one band of the specification's table holds of it,
  and it is the band the classifier assigns. The bands leave no gap and do not overlap on
  the interval.
\<close>

theorem score_in_range_band_unique:
  assumes "extract_features (preprocess_text t) = Inr f"
  shows "0 \<le> calculate_score f \<and> calculate_score f \<le> 10 \<and>
         (\<exists>!b. in_band b (calculate_score f)) \<and>
         in_band (result_severity (classify now (calculate_score f) f t (preprocess_text t))) (calculate_score f) \<and>
         (\<forall>s. 0 \<le> s \<and> s \<le> 10 \<longrightarrow> (\<exists>!b. in_band b s))"
proof -
  have u: "\<exists>!b. in_band b s" for s
    using in_band_severity_of[of s] in_band_unique[of _ s] by blast
  have c: "result_severity (classify now s f t p) = severity_of s" for s p
    by (simp add: classify_def Let_def)
  from calculate_score_bounds[of f] u c in_band_severity_of show ?thesis by simp
qed

theorem score_in_range_band_unique_witness:
  "\<exists>f. extract_features (preprocess_text ''Hello!!!'') = Inr f \<and>
       0 \<le> calculate_score f \<and> calculate_score f \<le> 10 \<and>
       in_band (result_severity (classify ''now'' (calculate_score f) f ''Hello!!!'' (preprocess_text ''Hello!!!'')))
         (calculate_score f)"
proof -
  have "case extract_features (preprocess_text ''Hello!!!'') of Inl e \<Rightarrow> False | Inr f \<Rightarrow> True"
    by code_simp
  then obtain f where f: "extract_features (preprocess_text ''Hello!!!'') = Inr f"
    by (auto split: sum.splits)
  from score_in_range_band_unique[OF f, of "''now''"] f show ?thesis by blast
qed

text \<open>
  Claim C7, at an input where it fails. The URL \<^verbatim>\<open>http://[abc\<close> does not parse and
  \<open>analyze_url\<close> returns the record of a failed parse; the loop of \<open>extract_features\<close>
  then reads the key \<^verbatim>\<open>is_shortener\<close> of that record, which it does not have, and the
  extraction of the whole message ends with \<^verbatim>\<open>KeyError\<close>, although a second, well-formed
  URL follows.
\<close>

theorem parse_failure_aborts_extraction:
  "analyze_url ''http://[abc'' = Parse_failed ''http://[abc'' \<and>
   extract_features (preprocess_text ''see http://[abc and http://bit.ly/x'') = Inl (KeyError ''is_shortener'') \<and>
   detect now ''see http://[abc and http://bit.ly/x'' = Inl (KeyError ''is_shortener'')"
proof -
  have a: "analyze_url ''http://[abc'' = Parse_failed ''http://[abc''" by code_simp
  have b: "extract_features (preprocess_text ''see http://[abc and http://bit.ly/x'') = Inl (KeyError ''is_shortener'')"
    by code_simp
  have c: "py_strip ''see http://[abc and http://bit.ly/x'' \<noteq> []" by code_simp
  from a b c show ?thesis by (simp add: detect_def detect_with_def)
qed

text \<open>
  Claim C5, at an input where it fails. All six letters of \<^verbatim>\<open>URGENT\<close> are upper case, so
  the ratio of the original text is 1; \<open>detect\<close> computes the ratio of the preprocessed
  text, which has been put in lower case, and reports 0.
\<close>

theorem caps_ratio_of_lowercased_text:
  "calculate_caps_ratio ''URGENT'' = 1 \<and>
   (\<exists>a. detect now ''URGENT'' = Inr (Analysis_result a) \<and> all_caps_ratio (result_features a) = 0)"
proof -
  have a: "calculate_caps_ratio ''URGENT'' = 1" by code_simp
  have b: "\<not> (\<forall>c \<in> set ''URGENT''. is_space c)" by (simp add: is_space_def whitespace_def)
  have "case extract_features (preprocess_text ''URGENT'') of Inl e \<Rightarrow> False | Inr f \<Rightarrow> all_caps_ratio f = 0"
    by code_simp
  then obtain f where f: "extract_features (preprocess_text ''URGENT'') = Inr f" "all_caps_ratio f = 0"
    by (auto split: sum.splits)
  from detect_analysis[OF b f(1), of now] f(2) a show ?thesis by auto
qed

subsection \<open>The banking example\<close>

lemma banking_extract:
  "extract_features (preprocess_text banking_phishing_text) = Inr banking_features"
  by code_simp

lemma ratio_scale_pos: "0 < ratio_scale v"
  by (simp add: ratio_scale_def add_pos_pos)

lemma logistic_scale_11: "9.5 \<le> logistic_scale 11"
proof -
  have p: "(20::real) \<le> 2.718 ^ 3" by (simp add: power3_eq_cube)
  have "(2.718::real) powr (- 3) = 1 / 2.718 ^ 3"
    by (simp add: powr_minus_divide)
  also have "\<dots> \<le> 1 / 20" using p by (simp add: field_simps)
  finally have e: "(2.718::real) powr (- 3) \<le> 1 / 20" .
  have "0 < e \<Longrightarrow> e \<le> 1 / 20 \<Longrightarrow> 9.5 \<le> 10 / (1 + e)" for e :: real
    by (simp add: field_simps)
  from this[OF _ e] have "9.5 \<le> 10 / (1 + (2.718::real) powr (- 3))" by simp
  then show ?thesis by (simp add: logistic_scale_def)
qed

lemma py_round1_95: "py_round1 9.5 = 9.5"
  by (simp add: py_round1_def round_half_even_def)

lemma banking_base_score: "11 \<le> base_score banking_features"
proof -
  have "base_score banking_features =
      13.09 + ratio_scale 0 * 0.5 + ratio_scale (1 / 99) * 0.4 + ratio_scale (5 / 99) * 0.3"
    by (simp add: base_score_eq banking_features_def)
  with ratio_scale_pos[of 0] ratio_scale_pos[of "1 / 99"] ratio_scale_pos[of "5 / 99"]
  show ?thesis by simp
qed

lemma banking_score: "calculate_score banking_features = 10"
proof -
  have "9.5 \<le> logistic_scale (base_score banking_features)"
    using logistic_scale_11 logistic_scale_mono[OF banking_base_score] by simp
  from py_round1_mono[OF this] py_round1_95
  have "9.5 \<le> py_round1 (logistic_scale (base_score banking_features))"
    by simp
  then have c: "9.5 \<le> compressed_score banking_features" by (simp add: compressed_score_def)
  have "2 \<le> length (filter id (penalty_factors banking_features))"
    by (simp add: count_penalty_factors banking_features_def)
  with c show ?thesis by (simp add: calculate_score_def)
qed

text \<open>
  Claim C9. On the banking example \<open>detect\<close> returns an analysis of severity critical,
  whose feature record has one URL, one suspicious (shortened) URL and the urgency flag set.
  The score is 10: the base score is above 11, so the compressed score is at least 9.5, and
  the bonus applies.
\<close>

theorem banking_example:
  "\<exists>a. detect now banking_phishing_text = Inr (Analysis_result a) \<and>
       result_severity a = Critical \<and>
       total_urls (result_features a) = 1 \<and>
       suspicious_urls (result_features a) = 1 \<and>
       sense_of_urgency (result_features a) = 1"
proof -
  have "\<not> is_space (hd banking_phishing_text)" "hd banking_phishing_text \<in> set banking_phishing_text"
    by (simp_all add: banking_phishing_text_def is_space_def whitespace_def)
  then have nb: "\<not> (\<forall>c \<in> set banking_phishing_text. is_space c)" by blast
  from detect_analysis[OF nb banking_extract, of now] obtain a where
    a: "detect now banking_phishing_text = Inr (Analysis_result a)" "result_features a = banking_features"
       "result_severity a = severity_of (calculate_score banking_features)"
    by blast
  have "severity_of (calculate_score banking_features) = Critical"
    by (simp add: banking_score severity_of_def high_risk_def)
  with a show ?thesis by (simp add: banking_features_def)
qed

section \<open>Preprocessing\<close>

subsection \<open>Runs\<close>

lemma drop_repeated_Cons_not: "\<not> p c \<Longrightarrow> drop_repeated p (c # cs) = c # drop_repeated p cs"
  by (cases cs) simp_all

lemma drop_repeated_set: "set (drop_repeated p s) \<subseteq> set s"
  by (induction p s rule: drop_repeated.induct) auto

lemma drop_repeated_Nil [simp]: "drop_repeated p s = [] \<longleftrightarrow> s = []"
  by (induction p s rule: drop_repeated.induct) auto

lemma drop_repeated_last: "s \<noteq> [] \<Longrightarrow> last (drop_repeated p s) = last s"
  by (induction p s rule: drop_repeated.induct) auto

lemma drop_repeated_hd_p: "p c \<Longrightarrow> p (hd (drop_repeated p (c # cs)))"
  by (induction cs arbitrary: c) auto

lemma drop_repeated_hd:
  assumes "s \<noteq> []" "\<not> q (hd s)" "\<And>c. p c \<Longrightarrow> \<not> q c"
  shows "\<not> q (hd (drop_repeated p s))"
proof (cases s)
  case Nil
  with assms show ?thesis by simp
next
  case (Cons c cs)
  show ?thesis
  proof (cases "p c")
    case True
    with drop_repeated_hd_p[of p c cs] assms(3) show ?thesis by (simp add: Cons)
  next
    case False
    with assms(2) show ?thesis by (simp add: Cons drop_repeated_Cons_not)
  qed
qed

lemma no_pair_drop_repeated: "\<not> adjacent_pair p (drop_repeated p s)"
proof (induction p s rule: drop_repeated.induct)
  case (3 p c d cs)
  show ?case
  proof (cases "p c \<and> p d")
    case True
    with 3 show ?thesis by simp
  next
    case False
    obtain e es where e: "drop_repeated p (d # cs) = e # es"
      by (cases "drop_repeated p (d # cs)") simp_all
    have "\<not> (p c \<and> p e)"
    proof
      assume ce: "p c \<and> p e"
      with False have "\<not> p d" by simp
      then have "drop_repeated p (d # cs) = d # drop_repeated p cs" by (rule drop_repeated_Cons_not)
      with e ce \<open>\<not> p d\<close> show False by simp
    qed
    with 3 False e show ?thesis by simp
  qed
qed simp_all

lemma drop_repeated_fixed: "\<not> adjacent_pair p s \<Longrightarrow> drop_repeated p s = s"
  by (induction p s rule: drop_repeated.induct) (auto split: if_splits)

lemma no_pair_drop_other:
  "(\<forall>c. p c \<longrightarrow> \<not> q c) \<Longrightarrow> \<not> adjacent_pair q s \<Longrightarrow> \<not> adjacent_pair q (drop_repeated p s)"
proof (induction p s rule: drop_repeated.induct)
  case (3 p c d cs)
  from "3.prems"(2) have nq: "\<not> (q c \<and> q d)" and tl: "\<not> adjacent_pair q (d # cs)"
    by (auto split: if_splits)
  show ?case
  proof (cases "p c \<and> p d")
    case True
    with 3 tl show ?thesis by simp
  next
    case False
    obtain e es where e: "drop_repeated p (d # cs) = e # es"
      by (cases "drop_repeated p (d # cs)") simp_all
    have "\<not> (q c \<and> q e)"
    proof
      assume ce: "q c \<and> q e"
      with nq have "\<not> q d" by simp
      have "\<not> q (hd (drop_repeated p (d # cs)))"
        by (rule drop_repeated_hd) (use \<open>\<not> q d\<close> "3.prems"(1) in simp_all)
      with e ce show False by simp
    qed
    with 3 False e tl show ?thesis by simp
  qed
qed simp_all

lemma adjacent_pair_map: "(\<And>c. q (f c) = q c) \<Longrightarrow> adjacent_pair q (map f s) = adjacent_pair q s"
  by (induction q s rule: adjacent_pair.induct) auto

subsection \<open>The two substitutions as run collapses\<close>

lemma collapse_punct_step:
  "collapse_punct (c # d # cs) =
     (if is_punct3 c \<and> is_punct3 d then collapse_punct (d # cs) else c # collapse_punct (d # cs))"
proof (cases "takeWhile is_punct3 cs = []")
  case True
  then have "dropWhile is_punct3 cs = cs" by (simp add: takeWhile_eq_Nil_iff dropWhile_eq_self_iff)
  with True show ?thesis by simp
next
  case False
  then have "Suc 0 \<le> length (takeWhile is_punct3 cs)" by (simp add: Suc_le_eq)
  then show ?thesis by simp
qed

lemma collapse_punct_single: "collapse_punct [c] = [c]"
  by simp

lemma collapse_ws_single: "collapse_ws [c] = [blank c]"
  by (simp add: blank_def)

lemma collapse_punct_eq: "collapse_punct s = drop_repeated is_punct3 s"
  by (induction "is_punct3" s rule: drop_repeated.induct)
     (simp_all add: collapse_punct_step collapse_punct_single del: collapse_punct.simps(2))

lemma collapse_ws_step:
  "collapse_ws (c # d # cs) =
     (if is_space c \<and> is_space d then collapse_ws (d # cs) else blank c # collapse_ws (d # cs))"
  by (simp add: blank_def)

lemma collapse_ws_eq: "collapse_ws s = map blank (drop_repeated is_space s)"
  by (induction "is_space" s rule: drop_repeated.induct)
     (simp_all add: collapse_ws_step collapse_ws_single del: collapse_ws.simps(2))

subsection \<open>Characters\<close>

lemma punct3_not_space: "is_punct3 c \<Longrightarrow> \<not> is_space c"
  by (auto simp: is_punct3_def is_space_def whitespace_def)

lemma lower_char_not_upper: "\<not> is_upper (lower_char c)"
  by (simp add: lower_char_def is_upper_def ascii_uppercase_def ascii_lowercase_def)

lemma lower_char_id: "\<not> is_upper c \<Longrightarrow> lower_char c = c"
  by (simp add: lower_char_def is_upper_def ascii_uppercase_def ascii_lowercase_def)

lemma blank_space: "is_space (blank c) = is_space c"
  by (simp add: blank_def is_space_def whitespace_def)

lemma blank_idem: "blank (blank c) = blank c"
  by (simp add: blank_def is_space_def whitespace_def)

subsection \<open>Stripping\<close>

lemma strip_where_set: "set (strip_where p s) \<subseteq> set s"
proof
  fix c
  assume "c \<in> set (strip_where p s)"
  then have "c \<in> set (dropWhile p (rev (dropWhile p s)))" by (simp add: strip_where_def)
  then have "c \<in> set (rev (dropWhile p s))" by (rule set_dropWhileD)
  then have "c \<in> set (dropWhile p s)" by simp
  then show "c \<in> set s" by (rule set_dropWhileD)
qed

lemma strip_where_hd: "strip_where p s \<noteq> [] \<Longrightarrow> \<not> p (hd (strip_where p s))"
proof -
  assume ne: "strip_where p s \<noteq> []"
  define d where "d = dropWhile p s"
  have s: "strip_where p s = rev (dropWhile p (rev d))" by (simp add: strip_where_def d_def)
  with ne have "d \<noteq> []" by auto
  then have nh: "\<not> p (hd d)" unfolding d_def by (rule hd_dropWhile)
  have "d = strip_where p s @ rev (takeWhile p (rev d))"
    unfolding s by (metis rev_append rev_rev_ident takeWhile_dropWhile_id)
  with ne have "hd d = hd (strip_where p s)" by (metis hd_append2)
  with nh show ?thesis by simp
qed

lemma strip_where_fixed:
  assumes "s = [] \<or> (\<not> p (hd s) \<and> \<not> p (last s))"
  shows "strip_where p s = s"
proof (cases "s = []")
  case True
  then show ?thesis by (simp add: strip_where_def)
next
  case False
  with assms have h: "\<not> p (hd s)" and l: "\<not> p (last s)" by auto
  from False h have d: "dropWhile p s = s" by (cases s) auto
  from False l have "dropWhile p (rev s) = rev s" by (cases "rev s") (auto simp: last_rev hd_rev)
  with d show ?thesis by (simp add: strip_where_def)
qed

lemma lower_char_percent_iff: "(CHR ''%'' = lower_char c) = (c = CHR ''%'')"
  by (auto simp: lower_char_def ascii_uppercase_def ascii_lowercase_def)

lemma py_lower_percent: "CHR ''%'' \<notin> set t \<Longrightarrow> CHR ''%'' \<notin> set (py_lower t)"
  by (induction t) (auto simp: py_lower_def lower_char_percent_iff)

subsection \<open>Idempotence of the preprocessing\<close>

lemma preprocess_fixed:
  assumes up: "\<forall>c \<in> set n. \<not> is_upper c"
    and ends: "n = [] \<or> (\<not> is_space (hd n) \<and> \<not> is_space (last n))"
    and bl: "\<forall>c \<in> set n. blank c = c"
    and sp: "\<not> adjacent_pair is_space n"
    and pc: "CHR ''%'' \<notin> set n"
    and pu: "\<not> adjacent_pair is_punct3 n"
  shows "preprocess_text n = n"
proof -
  from up have 1: "py_lower n = n" by (simp add: py_lower_def lower_char_id map_idI)
  from ends have 2: "py_strip n = n" unfolding py_strip_def by (rule strip_where_fixed)
  from sp bl have 3: "collapse_ws n = n" by (simp add: collapse_ws_eq drop_repeated_fixed map_idI)
  from pc have 4: "unquote n = n" by (simp add: unquote_def)
  from pu have 5: "collapse_punct n = n" by (simp add: collapse_punct_eq drop_repeated_fixed)
  show ?thesis by (simp add: preprocess_text_def 1 2 3 4 5)
qed

lemma collapse_ws_set: "c \<in> set (collapse_ws x) \<Longrightarrow> c = CHR '' '' \<or> c \<in> set x"
proof -
  assume "c \<in> set (collapse_ws x)"
  then obtain d where d: "d \<in> set (drop_repeated is_space x)" and c: "c = blank d"
    unfolding collapse_ws_eq by (auto simp: image_iff)
  from d drop_repeated_set[of is_space x] have "d \<in> set x" by auto
  with c show ?thesis by (simp add: blank_def)
qed

lemma collapse_ws_blank: "c \<in> set (collapse_ws x) \<Longrightarrow> blank c = c"
proof -
  assume "c \<in> set (collapse_ws x)"
  then obtain d where "c = blank d" unfolding collapse_ws_eq by (auto simp: image_iff)
  then show ?thesis by (simp add: blank_idem)
qed

lemma collapse_ws_no_pair: "\<not> adjacent_pair is_space (collapse_ws x)"
  unfolding collapse_ws_eq by (simp add: adjacent_pair_map blank_space no_pair_drop_repeated)

lemma collapse_ws_ends:
  assumes "x = [] \<or> (\<not> is_space (hd x) \<and> \<not> is_space (last x))"
  shows "collapse_ws x = [] \<or> (\<not> is_space (hd (collapse_ws x)) \<and> \<not> is_space (last (collapse_ws x)))"
proof (cases "x = []")
  case True
  then show ?thesis by simp
next
  case False
  with assms have h: "\<not> is_space (hd x)" and l: "\<not> is_space (last x)" by auto
  from False have dn: "drop_repeated is_space x \<noteq> []" by simp
  have "hd (drop_repeated is_space x) = hd x"
    using False h by (cases x) (simp_all add: drop_repeated_Cons_not)
  then have "hd (collapse_ws x) = blank (hd x)" unfolding collapse_ws_eq using dn by (simp add: hd_map)
  moreover have "last (collapse_ws x) = blank (last x)"
    unfolding collapse_ws_eq using dn False by (simp add: last_map drop_repeated_last)
  ultimately show ?thesis using h l by (simp add: blank_space)
qed

lemma collapse_punct_ends:
  assumes "w = [] \<or> (\<not> is_space (hd w) \<and> \<not> is_space (last w))"
  shows "collapse_punct w = [] \<or> (\<not> is_space (hd (collapse_punct w)) \<and> \<not> is_space (last (collapse_punct w)))"
proof (cases "w = []")
  case True
  then show ?thesis by simp
next
  case False
  with assms have h: "\<not> is_space (hd w)" and l: "\<not> is_space (last w)" by auto
  have "\<not> is_space (hd (drop_repeated is_punct3 w))"
    by (rule drop_repeated_hd) (use False h punct3_not_space in simp_all)
  moreover have "last (drop_repeated is_punct3 w) = last w" using False by (rule drop_repeated_last)
  ultimately show ?thesis using l by (simp add: collapse_punct_eq)
qed

lemma collapse_punct_set: "c \<in> set (collapse_punct w) \<Longrightarrow> c \<in> set w"
  using drop_repeated_set[of is_punct3 w] by (auto simp: collapse_punct_eq)

lemma collapse_punct_no_pair: "\<not> adjacent_pair is_punct3 (collapse_punct w)"
  by (simp add: collapse_punct_eq no_pair_drop_repeated)

lemma collapse_punct_no_space_pair:
  "\<not> adjacent_pair is_space w \<Longrightarrow> \<not> adjacent_pair is_space (collapse_punct w)"
  unfolding collapse_punct_eq by (rule no_pair_drop_other) (simp_all add: punct3_not_space)

lemma py_strip_ends:
  "py_strip y = [] \<or> (\<not> is_space (hd (py_strip y)) \<and> \<not> is_space (last (py_strip y)))"
  unfolding py_strip_def using strip_where_hd[of is_space y] strip_where_last[of is_space y] by blast

lemma py_strip_set: "c \<in> set (py_strip y) \<Longrightarrow> c \<in> set y"
  unfolding py_strip_def using strip_where_set[of is_space y] by auto

lemma py_lower_no_upper: "c \<in> set (py_lower t) \<Longrightarrow> \<not> is_upper c"
  by (auto simp: py_lower_def lower_char_not_upper)

text \<open>What the preprocessing of a text without a percent sign looks like: every fact that makes
  a second pass change nothing.\<close>

lemma preprocess_normal:
  assumes "CHR ''%'' \<notin> set t"
  shows "(\<forall>c \<in> set (preprocess_text t). \<not> is_upper c) \<and>
         (preprocess_text t = [] \<or>
            (\<not> is_space (hd (preprocess_text t)) \<and> \<not> is_space (last (preprocess_text t)))) \<and>
         (\<forall>c \<in> set (preprocess_text t). blank c = c) \<and>
         \<not> adjacent_pair is_space (preprocess_text t) \<and>
         CHR ''%'' \<notin> set (preprocess_text t) \<and>
         \<not> adjacent_pair is_punct3 (preprocess_text t)"
proof (cases "t = []")
  case True
  then show ?thesis by (simp add: preprocess_text_def)
next
  case False
  define w where "w = collapse_ws (py_strip (py_lower t))"
  have wp: "CHR ''%'' \<notin> set w"
  proof
    assume "CHR ''%'' \<in> set w"
    then have "CHR ''%'' \<in> set (py_strip (py_lower t))"
      unfolding w_def by (auto dest: collapse_ws_set)
    then have "CHR ''%'' \<in> set (py_lower t)" by (rule py_strip_set)
    with py_lower_percent[OF assms] show False by simp
  qed
  have wu: "\<not> is_upper c" if "c \<in> set w" for c
  proof -
    from that have "c = CHR '' '' \<or> c \<in> set (py_strip (py_lower t))"
      unfolding w_def by (rule collapse_ws_set)
    then show ?thesis
    proof
      assume "c = CHR '' ''"
      then show ?thesis by (simp add: is_upper_def ascii_uppercase_def)
    next
      assume "c \<in> set (py_strip (py_lower t))"
      then have "c \<in> set (py_lower t)" by (rule py_strip_set)
      then show ?thesis by (rule py_lower_no_upper)
    qed
  qed
  have wb: "blank c = c" if "c \<in> set w" for c
    using that unfolding w_def by (rule collapse_ws_blank)
  have wsp: "\<not> adjacent_pair is_space w" unfolding w_def by (rule collapse_ws_no_pair)
  have we: "w = [] \<or> (\<not> is_space (hd w) \<and> \<not> is_space (last w))"
    unfolding w_def by (rule collapse_ws_ends) (rule py_strip_ends)
  from wp have "unquote w = w" by (simp add: unquote_def)
  with False have n: "preprocess_text t = collapse_punct w"
    by (simp add: preprocess_text_def w_def)
  have 1: "\<forall>c \<in> set (collapse_punct w). \<not> is_upper c" using wu collapse_punct_set by blast
  have 2: "collapse_punct w = [] \<or>
      (\<not> is_space (hd (collapse_punct w)) \<and> \<not> is_space (last (collapse_punct w)))"
    using we by (rule collapse_punct_ends)
  have 3: "\<forall>c \<in> set (collapse_punct w). blank c = c" using wb collapse_punct_set by blast
  have 4: "\<not> adjacent_pair is_space (collapse_punct w)" using wsp by (rule collapse_punct_no_space_pair)
  have 5: "CHR ''%'' \<notin> set (collapse_punct w)" using wp collapse_punct_set by blast
  have 6: "\<not> adjacent_pair is_punct3 (collapse_punct w)" by (rule collapse_punct_no_pair)
  show ?thesis unfolding n using 1 2 3 4 5 6 by (intro conjI)
qed

text \<open>
  Claim C4, as amended. On a text without the character \<^verbatim>\<open>%\<close> the preprocessing is
  idempotent. (With a percent escape it is not: the decoding runs after lower-casing,
  trimming and whitespace collapsing, and what it decodes is not normalized again; see the
  counterexample below.)
\<close>

theorem preprocess_idempotent_without_percent:
  assumes "CHR ''%'' \<notin> set t"
  shows "preprocess_text (preprocess_text t) = preprocess_text t"
  using preprocess_normal[OF assms] by (intro preprocess_fixed) simp_all

theorem preprocess_idempotent_without_percent_witness:
  "CHR ''%'' \<notin> set ''  Hello   World!!!  '' \<and>
   preprocess_text ''  Hello   World!!!  '' = ''hello world!'' \<and>
   preprocess_text (preprocess_text ''  Hello   World!!!  '') = preprocess_text ''  Hello   World!!!  ''"
proof -
  have a: "CHR ''%'' \<notin> set ''  Hello   World!!!  ''" by simp
  have b: "preprocess_text ''  Hello   World!!!  '' = ''hello world!''" by code_simp
  from preprocess_idempotent_without_percent[OF a] a b show ?thesis by simp
qed

text \<open>
  Claim C4 as stated fails: \<^verbatim>\<open>a%20%20b\<close> is preprocessed to \<^verbatim>\<open>a\<close>, two blanks, \<^verbatim>\<open>b\<close>, and
  preprocessing that gives \<^verbatim>\<open>a b\<close> with one blank.
\<close>

theorem preprocess_not_idempotent:
  "\<not> (\<forall>t. preprocess_text (preprocess_text t) = preprocess_text t)"
proof
  assume "\<forall>t. preprocess_text (preprocess_text t) = preprocess_text t"
  then have "preprocess_text (preprocess_text ''a%20%20b'') = preprocess_text ''a%20%20b''" by blast
  moreover have "preprocess_text ''a%20%20b'' = ''a  b''" by code_simp
  moreover have "preprocess_text ''a  b'' = ''a b''" by code_simp
  ultimately show False by simp
qed

section \<open>The exclamation count\<close>

subsection \<open>Runs of punctuation\<close>

lemma bang_is_punct3: "is_punct3 CHR ''!''"
  by (simp add: is_punct3_def)

lemma punct_runs_pair:
  "is_punct3 c \<Longrightarrow> is_punct3 d \<Longrightarrow>
   punct_runs (c # d # cs) = (c # hd (punct_runs (d # cs))) # tl (punct_runs (d # cs))"
  by simp

lemma punct_runs_single:
  "is_punct3 c \<Longrightarrow> \<not> is_punct3 d \<Longrightarrow> punct_runs (c # d # cs) = [c] # punct_runs (d # cs)"
  by simp

lemma punct_runs_head: "is_punct3 d \<Longrightarrow> punct_runs (d # cs) \<noteq> []"
  by simp

lemma bang_runs_pair:
  assumes "is_punct3 c" "is_punct3 d"
  shows "bang_runs (d # cs) \<le> bang_runs (c # d # cs)"
proof -
  obtain r rs where r: "punct_runs (d # cs) = r # rs"
    using punct_runs_head[OF assms(2), of cs] by (cases "punct_runs (d # cs)") auto
  have "punct_runs (c # d # cs) = (c # r) # rs"
    using punct_runs_pair[OF assms, of cs] r by simp
  with r show ?thesis by (simp add: bang_runs_def)
qed

lemma count_bang_collapse:
  "length (filter (\<lambda>d. d = CHR ''!'') (drop_repeated is_punct3 s)) \<le> bang_runs s"
proof (induction "is_punct3" s rule: drop_repeated.induct)
  case 1
  then show ?case by simp
next
  case (2 c)
  then show ?case by (simp add: bang_runs_def bang_is_punct3)
next
  case (3 c d cs)
  show ?case
  proof (cases "is_punct3 c \<and> is_punct3 d")
    case True
    with 3 bang_runs_pair[of c d cs] show ?thesis by simp
  next
    case False
    note nf = False
    show ?thesis
    proof (cases "is_punct3 c")
      case True
      with nf have nd: "\<not> is_punct3 d" by simp
      have "bang_runs (c # d # cs) = (if c = CHR ''!'' then 1 else 0) + bang_runs (d # cs)"
        unfolding bang_runs_def punct_runs_single[OF True nd] by simp
      with 3 nf show ?thesis by simp
    next
      case False
      then have "c \<noteq> CHR ''!''" using bang_is_punct3 by auto
      moreover from False have "bang_runs (c # d # cs) = bang_runs (d # cs)" by (simp add: bang_runs_def)
      ultimately show ?thesis using 3 nf by simp
    qed
  qed
qed

lemma exclamation_bound: "py_count (collapse_punct s) CHR ''!'' \<le> int (bang_runs s)"
  using count_bang_collapse[of s] by (simp add: py_count_def collapse_punct_eq)

lemma punct_runs_not: "\<not> is_punct3 c \<Longrightarrow> punct_runs (c # cs) = punct_runs cs"
  by simp

lemma punct_runs_none: "\<forall>c \<in> set b. \<not> is_punct3 c \<Longrightarrow> punct_runs b = []"
  by (induction b) simp_all

lemma punct_runs_map:
  assumes "\<And>c. is_punct3 c \<Longrightarrow> f c = c" "\<And>c. \<not> is_punct3 c \<Longrightarrow> \<not> is_punct3 (f c)"
  shows "punct_runs (map f s) = punct_runs s"
proof (induction s rule: punct_runs.induct)
  case 1
  then show ?case by simp
next
  case (2 c cs)
  have pf: "is_punct3 (f x) = is_punct3 x" for x using assms by (cases "is_punct3 x") auto
  then have comp: "is_punct3 \<circ> f = is_punct3" by auto
  show ?case
  proof (cases "is_punct3 c")
    case True
    have "map f (takeWhile is_punct3 cs) = takeWhile is_punct3 cs"
      by (rule map_idI) (use assms(1) in \<open>auto dest: set_takeWhileD\<close>)
    then have t: "takeWhile is_punct3 (map f cs) = takeWhile is_punct3 cs"
      by (simp add: takeWhile_map comp)
    have d: "dropWhile is_punct3 (map f cs) = map f (dropWhile is_punct3 cs)"
      by (simp add: dropWhile_map comp)
    from True 2 t d assms(1)[OF True] show ?thesis by simp
  next
    case False
    with 2 assms(2)[OF False] show ?thesis by simp
  qed
qed

lemma punct_runs_dropWhile_space: "punct_runs (dropWhile is_space s) = punct_runs s"
proof (induction s)
  case Nil
  then show ?case by simp
next
  case (Cons c s)
  then show ?case using punct3_not_space[of c] by auto
qed

lemma punct_runs_append_none:
  "\<forall>c \<in> set b. \<not> is_punct3 c \<Longrightarrow> punct_runs (a @ b) = punct_runs a"
proof (induction a rule: punct_runs.induct)
  case 1
  then show ?case by (simp add: punct_runs_none)
next
  case (2 c cs)
  show ?case
  proof (cases "is_punct3 c")
    case False
    with 2 show ?thesis by simp
  next
    case True
    have tb: "takeWhile is_punct3 b = []" using "2.prems" by (cases b) auto
    then have db: "dropWhile is_punct3 b = b"
      by (metis append_Nil takeWhile_dropWhile_id)
    show ?thesis
    proof (cases "\<forall>x \<in> set cs. is_punct3 x")
      case all: True
      then have tcb: "takeWhile is_punct3 (cs @ b) = cs" and dcb: "dropWhile is_punct3 (cs @ b) = b"
        by (simp_all add: tb db)
      from all have tc: "takeWhile is_punct3 cs = cs" and dc: "dropWhile is_punct3 cs = []" by simp_all
      have "punct_runs ((c # cs) @ b) = (c # takeWhile is_punct3 (cs @ b)) # punct_runs (dropWhile is_punct3 (cs @ b))"
        using True by simp
      also have "\<dots> = [c # cs]" unfolding tcb dcb using "2.prems" by (simp add: punct_runs_none)
      finally have l: "punct_runs ((c # cs) @ b) = [c # cs]" .
      have "punct_runs (c # cs) = (c # takeWhile is_punct3 cs) # punct_runs (dropWhile is_punct3 cs)"
        using True by simp
      also have "\<dots> = [c # cs]" unfolding tc dc by simp
      finally show ?thesis using l by simp
    next
      case False
      then obtain x where x: "x \<in> set cs" "\<not> is_punct3 x" by auto
      then have "takeWhile is_punct3 (cs @ b) = takeWhile is_punct3 cs"
        "dropWhile is_punct3 (cs @ b) = dropWhile is_punct3 cs @ b"
        by simp_all
      with True 2 show ?thesis by simp
    qed
  qed
qed

lemma punct_runs_strip: "punct_runs (py_strip s) = punct_runs s"
proof -
  define d where "d = dropWhile is_space s"
  define b where "b = rev (takeWhile is_space (rev d))"
  have "d = py_strip s @ b"
    unfolding py_strip_def strip_where_def b_def d_def
    by (metis rev_append rev_rev_ident takeWhile_dropWhile_id)
  moreover have "\<forall>c \<in> set b. \<not> is_punct3 c"
    unfolding b_def using punct3_not_space by (auto dest: set_takeWhileD)
  ultimately have "punct_runs d = punct_runs (py_strip s)" by (simp add: punct_runs_append_none)
  then show ?thesis by (simp add: d_def punct_runs_dropWhile_space)
qed

lemma drop_space_takeWhile:
  "takeWhile is_punct3 (drop_repeated is_space s) = takeWhile is_punct3 s"
proof (induction s)
  case Nil
  then show ?case by simp
next
  case (Cons d ds)
  show ?case
  proof (cases "is_space d")
    case False
    with Cons show ?thesis by (simp add: drop_repeated_Cons_not)
  next
    case True
    from drop_repeated_hd_p[of is_space d ds, OF True]
    have "\<not> is_punct3 (hd (drop_repeated is_space (d # ds)))" using punct3_not_space by blast
    moreover have "drop_repeated is_space (d # ds) \<noteq> []" by simp
    ultimately have "takeWhile is_punct3 (drop_repeated is_space (d # ds)) = []"
      by (simp add: takeWhile_eq_Nil_iff)
    moreover from True have "\<not> is_punct3 d" using punct3_not_space by blast
    ultimately show ?thesis by simp
  qed
qed

lemma drop_space_dropWhile:
  "dropWhile is_punct3 (drop_repeated is_space s) = drop_repeated is_space (dropWhile is_punct3 s)"
proof (induction s)
  case Nil
  then show ?case by simp
next
  case (Cons d ds)
  show ?case
  proof (cases "is_space d")
    case False
    with Cons show ?thesis by (simp add: drop_repeated_Cons_not)
  next
    case True
    from drop_repeated_hd_p[of is_space d ds, OF True]
    have "\<not> is_punct3 (hd (drop_repeated is_space (d # ds)))" using punct3_not_space by blast
    moreover have "drop_repeated is_space (d # ds) \<noteq> []" by simp
    ultimately have "dropWhile is_punct3 (drop_repeated is_space (d # ds)) = drop_repeated is_space (d # ds)"
      by (simp add: dropWhile_eq_self_iff)
    moreover from True have "\<not> is_punct3 d" using punct3_not_space by blast
    ultimately show ?thesis by simp
  qed
qed

lemma punct_runs_drop_space: "punct_runs (drop_repeated is_space s) = punct_runs s"
proof (induction s rule: punct_runs.induct)
  case 1
  then show ?case by simp
next
  case (2 c cs)
  show ?case
  proof (cases "is_punct3 c")
    case True
    then have "\<not> is_space c" by (rule punct3_not_space)
    then have "drop_repeated is_space (c # cs) = c # drop_repeated is_space cs"
      by (rule drop_repeated_Cons_not)
    with True 2 show ?thesis by (simp add: drop_space_takeWhile drop_space_dropWhile)
  next
    case False
    show ?thesis
    proof (cases cs)
      case Nil
      with False show ?thesis by simp
    next
      case (Cons d ds)
      show ?thesis
      proof (cases "is_space c \<and> is_space d")
        case True
        with False 2 Cons show ?thesis by simp
      next
        case nb: False
        with False 2 Cons show ?thesis by simp
      qed
    qed
  qed
qed

lemma blank_punct3: "is_punct3 c \<Longrightarrow> blank c = c" "\<not> is_punct3 c \<Longrightarrow> \<not> is_punct3 (blank c)"
  using punct3_not_space[of c] by (auto simp: blank_def is_punct3_def)

lemma lower_char_upper: "is_upper c \<Longrightarrow> is_lower (lower_char c)"
  by (auto simp: is_upper_def is_lower_def lower_char_def ascii_uppercase_def ascii_lowercase_def)

lemma punct3_not_letter: "is_punct3 c \<Longrightarrow> \<not> is_upper c \<and> \<not> is_lower c"
  by (auto simp: is_punct3_def is_upper_def is_lower_def ascii_uppercase_def ascii_lowercase_def)

lemma lower_char_punct3: "is_punct3 c \<Longrightarrow> lower_char c = c" "\<not> is_punct3 c \<Longrightarrow> \<not> is_punct3 (lower_char c)"
proof -
  show "is_punct3 c \<Longrightarrow> lower_char c = c"
    using punct3_not_letter[of c] by (simp add: lower_char_id)
  show "\<not> is_punct3 c \<Longrightarrow> \<not> is_punct3 (lower_char c)"
    using lower_char_upper[of c] lower_char_id[of c] punct3_not_letter[of "lower_char c"]
    by (cases "is_upper c") auto
qed

lemma punct_runs_before_decoding:
  "punct_runs (collapse_ws (py_strip (py_lower t))) = punct_runs t"
proof -
  have "punct_runs (collapse_ws (py_strip (py_lower t))) = punct_runs (py_strip (py_lower t))"
    unfolding collapse_ws_eq by (simp add: punct_runs_map blank_punct3 punct_runs_drop_space)
  also have "\<dots> = punct_runs (py_lower t)" by (rule punct_runs_strip)
  also have "\<dots> = punct_runs t" unfolding py_lower_def by (rule punct_runs_map) (simp_all add: lower_char_punct3)
  finally show ?thesis .
qed

lemma extract_features_exclamation:
  "extract_features s = Inr f \<Longrightarrow> exclamation_count f = py_count s CHR ''!''"
  by (auto simp: extract_features_def Let_def split: sum.splits)

lemma detect_result:
  "detect now t = Inr (Analysis_result a) \<Longrightarrow>
   t \<noteq> [] \<and> extract_features (preprocess_text t) = Inr (result_features a)"
  by (auto simp: detect_def detect_with_def Let_def classify_def error_response_def
      split: if_splits sum.splits)

lemma preprocess_text_unfold:
  "t \<noteq> [] \<Longrightarrow> preprocess_text t = collapse_punct (unquote (collapse_ws (py_strip (py_lower t))))"
  by (simp add: preprocess_text_def)

lemma bang_runs_before_decoding:
  assumes "CHR ''%'' \<notin> set t"
  shows "bang_runs (unquote (collapse_ws (py_strip (py_lower t)))) = bang_runs t"
proof -
  have "CHR ''%'' \<notin> set (collapse_ws (py_strip (py_lower t)))"
  proof
    assume "CHR ''%'' \<in> set (collapse_ws (py_strip (py_lower t)))"
    then have "CHR ''%'' \<in> set (py_strip (py_lower t))" by (auto dest: collapse_ws_set)
    then have "CHR ''%'' \<in> set (py_lower t)" by (rule py_strip_set)
    with py_lower_percent[OF assms] show False by simp
  qed
  then have "unquote (collapse_ws (py_strip (py_lower t))) = collapse_ws (py_strip (py_lower t))"
    by (simp add: unquote_def)
  then show ?thesis by (simp add: bang_runs_def punct_runs_before_decoding)
qed

lemma hello_detect:
  "\<exists>a. detect now ''Hello!!!'' = Inr (Analysis_result a) \<and> exclamation_count (result_features a) = 1"
proof -
  have b: "\<not> (\<forall>c \<in> set ''Hello!!!''. is_space c)" by (simp add: is_space_def whitespace_def)
  have "case extract_features (preprocess_text ''Hello!!!'') of Inl e \<Rightarrow> False
        | Inr f \<Rightarrow> exclamation_count f = 1"
    by code_simp
  then obtain f where f: "extract_features (preprocess_text ''Hello!!!'') = Inr f" "exclamation_count f = 1"
    by (auto split: sum.splits)
  from detect_analysis[OF b f(1), of now] f(2) show ?thesis by auto
qed

text \<open>
  Claim C10, as amended. Whenever \<open>detect\<close> returns an analysis, its \<open>exclamation_count\<close> is
  the number of exclamation marks of the preprocessed text, which is the punctuation collapse
  of the lower-cased, trimmed, whitespace-collapsed and percent-decoded input and in which no
  two characters of \<^verbatim>\<open>!?.\<close> are neighbours. The count is at most the number of maximal
  punctuation runs holding an exclamation mark in the text as it stands before the collapse,
  and so in the original input when that has no \<^verbatim>\<open>%\<close>. For \<^verbatim>\<open>Hello!!!\<close> the count is 1.
\<close>

theorem exclamation_count_collapsed:
  "(\<forall>now t a. detect now t = Inr (Analysis_result a) \<longrightarrow>
      exclamation_count (result_features a) = py_count (preprocess_text t) CHR ''!'' \<and>
      preprocess_text t = collapse_punct (unquote (collapse_ws (py_strip (py_lower t)))) \<and>
      \<not> adjacent_pair is_punct3 (preprocess_text t) \<and>
      exclamation_count (result_features a)
        \<le> int (bang_runs (unquote (collapse_ws (py_strip (py_lower t))))) \<and>
      (CHR ''%'' \<notin> set t \<longrightarrow> exclamation_count (result_features a) \<le> int (bang_runs t))) \<and>
   (\<forall>now. \<exists>a. detect now ''Hello!!!'' = Inr (Analysis_result a) \<and>
      exclamation_count (result_features a) = 1)"
proof (intro conjI allI impI)
  fix now t a
  assume d: "detect now t = Inr (Analysis_result a)"
  from detect_result[OF d] have ne: "t \<noteq> []"
    and e: "extract_features (preprocess_text t) = Inr (result_features a)" by simp_all
  let ?x = "unquote (collapse_ws (py_strip (py_lower t)))"
  from ne have p: "preprocess_text t = collapse_punct ?x" by (rule preprocess_text_unfold)
  show c: "exclamation_count (result_features a) = py_count (preprocess_text t) CHR ''!''"
    using e by (rule extract_features_exclamation)
  show "preprocess_text t = collapse_punct ?x" by (rule p)
  show "\<not> adjacent_pair is_punct3 (preprocess_text t)" unfolding p by (rule collapse_punct_no_pair)
  show b: "exclamation_count (result_features a) \<le> int (bang_runs ?x)"
    unfolding c p by (rule exclamation_bound)
  show "exclamation_count (result_features a) \<le> int (bang_runs t)" if "CHR ''%'' \<notin> set t"
    using b bang_runs_before_decoding[OF that] by simp
next
  fix now
  show "\<exists>a. detect now ''Hello!!!'' = Inr (Analysis_result a) \<and> exclamation_count (result_features a) = 1"
    by (rule hello_detect)
qed

theorem exclamation_count_collapsed_witness:
  "\<exists>a. detect ''now'' ''Act now!!! Really?!'' = Inr (Analysis_result a) \<and>
       CHR ''%'' \<notin> set ''Act now!!! Really?!'' \<and>
       preprocess_text ''Act now!!! Really?!'' = ''act now! really!'' \<and>
       bang_runs ''Act now!!! Really?!'' = 2 \<and>
       exclamation_count (result_features a) = 2 \<and>
       exclamation_count (result_features a) \<le> int (bang_runs ''Act now!!! Really?!'')"
proof -
  have b: "\<not> (\<forall>c \<in> set ''Act now!!! Really?!''. is_space c)" by (simp add: is_space_def whitespace_def)
  have "case extract_features (preprocess_text ''Act now!!! Really?!'') of Inl e \<Rightarrow> False | Inr f \<Rightarrow> True"
    by code_simp
  then obtain f where f: "extract_features (preprocess_text ''Act now!!! Really?!'') = Inr f"
    by (auto split: sum.splits)
  from detect_analysis[OF b f, of "''now''"] obtain a where
    a: "detect ''now'' ''Act now!!! Really?!'' = Inr (Analysis_result a)" by blast
  have p: "preprocess_text ''Act now!!! Really?!'' = ''act now! really!''" by code_simp
  have r: "bang_runs ''Act now!!! Really?!'' = 2" by code_simp
  have n: "CHR ''%'' \<notin> set ''Act now!!! Really?!''" by simp
  have k: "py_count ''act now! really!'' CHR ''!'' = 2" by code_simp
  from exclamation_count_collapsed a n
  have "exclamation_count (result_features a) = py_count (preprocess_text ''Act now!!! Really?!'') CHR ''!'' \<and>
        exclamation_count (result_features a) \<le> int (bang_runs ''Act now!!! Really?!'')"
    by blast
  with a p r n k show ?thesis by auto
qed

text \<open>
  Claim C10 as stated fails on the bound: the input \<^verbatim>\<open>%21\<close> has no punctuation run at
  all, and its exclamation count is 1, since the escape is decoded to an exclamation mark.
\<close>

theorem exclamation_bound_fails_with_percent:
  "\<not> (\<forall>t a. detect ''now'' t = Inr (Analysis_result a) \<longrightarrow>
         exclamation_count (result_features a) \<le> int (bang_runs t))"
proof
  assume h: "\<forall>t a. detect ''now'' t = Inr (Analysis_result a) \<longrightarrow>
         exclamation_count (result_features a) \<le> int (bang_runs t)"
  have b: "\<not> (\<forall>c \<in> set ''%21''. is_space c)" by (simp add: is_space_def whitespace_def)
  have "case extract_features (preprocess_text ''%21'') of Inl e \<Rightarrow> False
        | Inr f \<Rightarrow> exclamation_count f = 1"
    by code_simp
  then obtain f where f: "extract_features (preprocess_text ''%21'') = Inr f" "exclamation_count f = 1"
    by (auto split: sum.splits)
  from detect_analysis[OF b f(1), of "''now''"] f(2) obtain a where
    a: "detect ''now'' ''%21'' = Inr (Analysis_result a)" "exclamation_count (result_features a) = 1"
    by auto
  have r: "bang_runs ''%21'' = 0" by code_simp
  from h a(1) have "exclamation_count (result_features a) \<le> int (bang_runs ''%21'')" by blast
  with a(2) r show False by simp
qed

end
